theory Spec2Isabelle
  imports Complex_Main "HOL-Library.AList"
begin

section \<open>Python values, strings and errors\<close>

text \<open>
  The retrieval pipeline of the repository lives in \<^verbatim>\<open>src/rag\<close>: the chunk processor,
  the embedding model adapter, the vector store and the retriever. This theory embeds
  those four files. Python \<^verbatim>\<open>str\<close> is \<open>string\<close>; a character is a code point below 256
  and the character classes are the ones Python uses on that range. A Python \<^verbatim>\<open>float\<close> is
  a real number; the similarity arithmetic of the vector store rounds as doubles do,
  the other float computations are carried out on the reals. An exception is a value of \<open>py_error\<close> and a function that can
  raise returns \<open>py_error + 'a\<close>.
\<close>

datatype py_error =
    RuntimeError string
  | ZeroDivisionError
  | IndexError
  | ImportError
  | OtherError string

text \<open>\<^verbatim>\<open>str.isspace\<close>, also the class \<^verbatim>\<open>\s\<close> of \<^verbatim>\<open>re\<close> and the separator of
  \<^verbatim>\<open>str.split()\<close> and \<^verbatim>\<open>str.strip()\<close>.\<close>

definition is_space :: "char \<Rightarrow> bool" where
  "is_space c =
     (let n = (of_char c :: nat)
      in (9 \<le> n \<and> n \<le> 13) \<or> (28 \<le> n \<and> n \<le> 32) \<or> n = 133 \<or> n = 160)"

definition py_strip :: "string \<Rightarrow> string" where
  "py_strip s = rev (dropWhile is_space (rev (dropWhile is_space s)))"

text \<open>\<^verbatim>\<open>s.split()\<close>: the maximal runs of non-whitespace characters, in order. The second
  argument is the token being read.\<close>

fun split_ws :: "string \<Rightarrow> string \<Rightarrow> string list" where
  "split_ws [] cur = (if cur = [] then [] else [cur])"
| "split_ws (c # cs) cur =
     (if is_space c then (if cur = [] then split_ws cs [] else cur # split_ws cs [])
      else split_ws cs (cur @ [c]))"

definition py_split :: "string \<Rightarrow> string list" where
  "py_split s = split_ws s []"

text \<open>\<^verbatim>\<open>sep.join(parts)\<close>.\<close>

fun py_join :: "string \<Rightarrow> string list \<Rightarrow> string" where
  "py_join sep [] = []"
| "py_join sep [x] = x"
| "py_join sep (x # y # ys) = x @ sep @ py_join sep (y # ys)"

subsection \<open>Values\<close>

text \<open>The values a metadata dictionary can hold. A dictionary is the list of its items in
  insertion order, with string keys. \<open>VOther s r\<close> is an object of any other type (a
  tuple, a set, a path): the code only ever looks at its \<^verbatim>\<open>str()\<close>, which is \<open>s\<close>, and,
  inside a container, at its \<^verbatim>\<open>repr()\<close>, which is \<open>r\<close>.\<close>

datatype pyval =
    VNone
  | VBool bool
  | VInt int
  | VFloat real
  | VStr string
  | VList "pyval list"
  | VDict "(string \<times> pyval) list"
  | VOther string string

text \<open>\<^verbatim>\<open>isinstance(v, (str, int, float, bool)) or v is None\<close>.\<close>

fun is_scalar :: "pyval \<Rightarrow> bool" where
  "is_scalar VNone = True"
| "is_scalar (VBool _) = True"
| "is_scalar (VInt _) = True"
| "is_scalar (VFloat _) = True"
| "is_scalar (VStr _) = True"
| "is_scalar _ = False"

fun is_dict :: "pyval \<Rightarrow> bool" where
  "is_dict (VDict _) = True"
| "is_dict _ = False"

fun is_list :: "pyval \<Rightarrow> bool" where
  "is_list (VList _) = True"
| "is_list _ = False"

text \<open>Decimal notation of an integer, as \<^verbatim>\<open>str(i)\<close> prints it.\<close>

function str_nat :: "nat \<Rightarrow> string" where
  "str_nat n =
     (if n < 10 then [''0123456789'' ! n]
      else str_nat (n div 10) @ [''0123456789'' ! (n mod 10)])"
  by pat_completeness auto
termination
  by (relation "measure id") auto

declare str_nat.simps [simp del]

definition str_int :: "int \<Rightarrow> string" where
  "str_int i = (if i < 0 then CHR ''-'' # str_nat (nat (- i)) else str_nat (nat i))"

text \<open>How Python prints a float and how it quotes a string in \<^verbatim>\<open>repr\<close> are not part of
  the repository: both are parameters.\<close>

record formats =
  float_repr :: "real \<Rightarrow> string"
  str_repr :: "string \<Rightarrow> string"

fun py_repr :: "formats \<Rightarrow> pyval \<Rightarrow> string" where
  "py_repr f VNone = ''None''"
| "py_repr f (VBool b) = (if b then ''True'' else ''False'')"
| "py_repr f (VInt i) = str_int i"
| "py_repr f (VFloat r) = float_repr f r"
| "py_repr f (VStr s) = str_repr f s"
| "py_repr f (VList xs) = ''['' @ py_join '', '' (map (py_repr f) xs) @ '']''"
| "py_repr f (VDict kvs) =
     ''{'' @ py_join '', '' (map (\<lambda>kv. str_repr f (fst kv) @ '': '' @ py_repr f (snd kv)) kvs) @ ''}''"
| "py_repr f (VOther s r) = r"

fun py_str :: "formats \<Rightarrow> pyval \<Rightarrow> string" where
  "py_str f (VStr s) = s"
| "py_str f (VOther s r) = s"
| "py_str f v = py_repr f v"

subsection \<open>Floats\<close>

text \<open>A finite IEEE 754 double is a real number, and an arithmetic operation on doubles
  returns the exact result rounded to the nearest double, ties to the even significand.
  \<open>round_even\<close> rounds a real to the nearest integer, ties to even; \<open>double_round\<close> keeps
  53 significant bits and lets the exponent of the last bit go no lower than \<open>-1074\<close>
  (the subnormal range). Infinities, NaN and overflow are left out: \<^verbatim>\<open>1 + d\<close> and
  \<^verbatim>\<open>1 / (1 + d)\<close> do not overflow when \<^verbatim>\<open>d\<close> is a finite double. \<open>float_div\<close> is the
  quotient for a divisor other than zero; the caller tests for zero first, where Python
  raises \<^verbatim>\<open>ZeroDivisionError\<close>.\<close>

definition round_even :: "real \<Rightarrow> int" where
  "round_even q =
     (let f = \<lfloor>q\<rfloor>; r = q - of_int f
      in if r < 1 / 2 then f else if r > 1 / 2 then f + 1 else if even f then f else f + 1)"

definition double_round :: "real \<Rightarrow> real" where
  "double_round x =
     (if x = 0 then 0
      else (let k = max (\<lfloor>log 2 \<bar>x\<bar>\<rfloor> - 52) (- 1074)
            in of_int (round_even (x / 2 powr of_int k)) * 2 powr of_int k))"

definition float_add :: "real \<Rightarrow> real \<Rightarrow> real" where
  "float_add x y = double_round (x + y)"

definition float_div :: "real \<Rightarrow> real \<Rightarrow> real" where
  "float_div x y = double_round (x / y)"

section \<open>The embedding model adapter (\<^verbatim>\<open>embedding.py\<close>)\<close>

text \<open>The sentence-transformers model is an external collaborator: the field \<open>model\<close>
  holds its \<^verbatim>\<open>encode\<close> function once it is loaded.\<close>

record embedding_model =
  model_name :: string
  model :: "(string list \<Rightarrow> py_error + real list list) option"
  dimension :: nat

datatype text_arg = One string | Many "string list"

definition clean_text :: "string \<Rightarrow> string" where
  "clean_text t =
     (if t = [] \<or> py_strip t = [] then []
      else concat (py_split (py_strip t)))"

definition encode_text :: "embedding_model \<Rightarrow> text_arg \<Rightarrow> py_error + real list list" where
  "encode_text m t =
     (case model m of
        None \<Rightarrow> Inl (RuntimeError ''Embedding model not loaded'')
      | Some enc \<Rightarrow>
          (let ts = (case t of One s \<Rightarrow> [s] | Many ss \<Rightarrow> ss);
               cleaned_text = map clean_text ts
           in enc cleaned_text))"

definition encode_query :: "nat \<Rightarrow> embedding_model \<Rightarrow> string \<Rightarrow> py_error + real list" where
  "encode_query max_query_length m query =
     (let q = (if length query > max_query_length then take max_query_length query else query)
      in case encode_text m (One q) of
           Inl e \<Rightarrow> Inl e
         | Inr [] \<Rightarrow> Inl IndexError
         | Inr (v # _) \<Rightarrow> Inr v)"

section \<open>The vector store (\<^verbatim>\<open>vector_store.py\<close>)\<close>

subsection \<open>Metadata flattening\<close>

type_synonym metadata = "(string \<times> pyval) list"

text \<open>\<^verbatim>\<open>_flatten_recursive\<close> writes into the dictionary \<open>flattened\<close> of the enclosing
  call; here the dictionary is passed in and returned. \<^verbatim>\<open>d[k] = v\<close> on a dictionary is
  \<open>AList.update k v\<close>: an existing key keeps its place, a new key goes to the end.
  \<open>flatten_items\<close> is the \<^verbatim>\<open>for key, value in obj.items()\<close> loop.\<close>

fun flatten_recursive :: "formats \<Rightarrow> pyval \<Rightarrow> string \<Rightarrow> metadata \<Rightarrow> metadata"
  and flatten_items :: "formats \<Rightarrow> (string \<times> pyval) list \<Rightarrow> string \<Rightarrow> metadata \<Rightarrow> metadata"
where
  "flatten_recursive f (VDict kvs) prefix flattened = flatten_items f kvs prefix flattened"
| "flatten_recursive f VNone prefix flattened = AList.update prefix VNone flattened"
| "flatten_recursive f (VBool b) prefix flattened = AList.update prefix (VBool b) flattened"
| "flatten_recursive f (VInt i) prefix flattened = AList.update prefix (VInt i) flattened"
| "flatten_recursive f (VFloat r) prefix flattened = AList.update prefix (VFloat r) flattened"
| "flatten_recursive f (VStr s) prefix flattened = AList.update prefix (VStr s) flattened"
| "flatten_recursive f (VList xs) prefix flattened =
     AList.update prefix (VStr (py_str f (VList xs))) flattened"
| "flatten_recursive f (VOther s r) prefix flattened =
     AList.update prefix (VStr (py_str f (VOther s r))) flattened"
| "flatten_items f [] prefix flattened = flattened"
| "flatten_items f ((key, val) # rest) prefix flattened =
     (let new_key = (if prefix \<noteq> [] then prefix @ ''_'' @ key else key)
      in flatten_items f rest prefix
           (if is_dict val then flatten_recursive f val new_key flattened
            else if is_scalar val then AList.update new_key val flattened
            else (case val of
                    VList xs \<Rightarrow>
                      AList.update new_key (VStr (py_join '', '' (map (py_str f) xs))) flattened
                  | _ \<Rightarrow> AList.update new_key (VStr (py_str f val)) flattened)))"

definition flatten_metadata :: "formats \<Rightarrow> pyval \<Rightarrow> metadata" where
  "flatten_metadata f md =
     (let flattened = flatten_recursive f md [] []
      in map (\<lambda>(key, val). (key, if is_scalar val then val else VStr (py_str f val))) flattened)"

subsection \<open>The flattening transform in the words of the specification\<close>

text \<open>The specification describes the transform as a walk over the nested mappings that
  joins parent and child keys with an underscore, passes scalars through, writes a list
  as the comma-joined string forms of its elements and any other value as its string
  form. \<open>spec_paths\<close> lists the key paths to the values that are not mappings, in order;
  \<open>flatten_spec\<close> stores each value under its joined path. These two definitions follow
  the specification, not the code.\<close>

definition spec_leaf :: "formats \<Rightarrow> pyval \<Rightarrow> pyval" where
  "spec_leaf f v =
     (if is_scalar v then v
      else case v of
             VList xs \<Rightarrow> VStr (py_join '', '' (map (py_str f) xs))
           | _ \<Rightarrow> VStr (py_str f v))"

fun spec_paths :: "(string \<times> pyval) list \<Rightarrow> (string list \<times> pyval) list" where
  "spec_paths [] = []"
| "spec_paths ((k, v) # rest) =
     (case v of
        VDict sub \<Rightarrow> map (\<lambda>(p, x). (k # p, x)) (spec_paths sub)
      | _ \<Rightarrow> [([k], v)]) @ spec_paths rest"

definition flatten_spec :: "formats \<Rightarrow> (string \<times> pyval) list \<Rightarrow> metadata" where
  "flatten_spec f kvs =
     fold (\<lambda>(p, v). AList.update (py_join ''_'' p) (spec_leaf f v)) (spec_paths kvs) []"

subsection \<open>The collection\<close>

text \<open>ChromaDB is an external library. \<open>'k\<close> is the state of its client and \<open>'c\<close> the state
  of a collection; the calls the store makes are the fields of \<open>chroma\<close>. A call that
  changes the collection returns the new one.\<close>

record query_result =
  qr_documents :: "string list list option"
  qr_metadatas :: "metadata list list option"
  qr_distances :: "real list list option"

record ('k, 'c) chroma =
  coll_count :: "'c \<Rightarrow> nat"
  coll_add :: "'c \<Rightarrow> string list \<Rightarrow> real list list \<Rightarrow> metadata list \<Rightarrow> string list \<Rightarrow> py_error + 'c"
  coll_query :: "'c \<Rightarrow> real list \<Rightarrow> int \<Rightarrow> py_error + query_result"
  coll_delete :: "'c \<Rightarrow> string list \<Rightarrow> py_error + 'c"
  delete_collection :: "'k \<Rightarrow> string \<Rightarrow> py_error + 'k"
  create_collection :: "'k \<Rightarrow> string \<Rightarrow> py_error + 'k \<times> 'c"

record ('k, 'c) vector_store =
  collection_name :: string
  client :: "'k option"
  collection :: "'c option"

record search_hit =
  document :: string
  metadata :: metadata
  similarity_score :: real
  distance :: real

subsection \<open>\<^verbatim>\<open>add_documents\<close>\<close>

text \<open>The body of the \<^verbatim>\<open>try\<close> block; \<open>Inl\<close> is an exception raised inside it.\<close>

definition add_documents_body ::
  "formats \<Rightarrow> ('k, 'c) chroma \<Rightarrow> ('k, 'c) vector_store \<Rightarrow> string list \<Rightarrow> real list list
     \<Rightarrow> pyval list \<Rightarrow> string list option \<Rightarrow> py_error + ('k, 'c) vector_store" where
  "add_documents_body f db store documents embeddings metadata_list ids_opt =
     (case collection store of
        None \<Rightarrow> Inl (RuntimeError ''Vector store not initialized'')
      | Some c \<Rightarrow>
          (let ids = (case ids_opt of
                        Some ids \<Rightarrow> ids
                      | None \<Rightarrow>
                          map (\<lambda>i. ''doc_'' @ str_nat (coll_count db c + i)) [0 ..< length documents]);
               flattened_metadata =
                 map (\<lambda>meta. if is_dict meta then flatten_metadata f meta
                             else [(''content'', VStr (py_str f meta))]) metadata_list
           in case coll_add db c documents embeddings flattened_metadata ids of
                Inl e \<Rightarrow> Inl e
              | Inr c' \<Rightarrow> Inr (store\<lparr>collection := Some c'\<rparr>)))"

definition add_documents ::
  "formats \<Rightarrow> ('k, 'c) chroma \<Rightarrow> ('k, 'c) vector_store \<Rightarrow> string list \<Rightarrow> real list list
     \<Rightarrow> pyval list \<Rightarrow> string list option \<Rightarrow> bool \<times> ('k, 'c) vector_store" where
  "add_documents f db store documents embeddings metadata_list ids_opt =
     (case add_documents_body f db store documents embeddings metadata_list ids_opt of
        Inl e \<Rightarrow> (False, store)
      | Inr store' \<Rightarrow> (True, store'))"

subsection \<open>\<^verbatim>\<open>search_similar\<close>\<close>

text \<open>The loop over \<^verbatim>\<open>zip(documents, metadatas, distances)\<close>. The division raises
  \<^verbatim>\<open>ZeroDivisionError\<close> when \<^verbatim>\<open>1 + distance\<close> is zero, at distance \<open>-1\<close>.\<close>

fun collect_similar :: "real \<Rightarrow> (string \<times> metadata \<times> real) list \<Rightarrow> search_hit list
    \<Rightarrow> py_error + search_hit list" where
  "collect_similar similarity_threshold [] similar_docs = Inr similar_docs"
| "collect_similar similarity_threshold ((doc, md, d) # rest) similar_docs =
     (if float_add 1 d = 0 then Inl ZeroDivisionError
      else
        (let similarity = float_div 1 (float_add 1 d)
         in if similarity \<ge> similarity_threshold
            then collect_similar similarity_threshold rest
                   (similar_docs @ [\<lparr>document = doc, metadata = md,
                                     similarity_score = similarity, distance = d\<rparr>])
            else collect_similar similarity_threshold rest similar_docs))"

definition search_similar_body ::
  "('k, 'c) chroma \<Rightarrow> ('k, 'c) vector_store \<Rightarrow> real list \<Rightarrow> int \<Rightarrow> real
     \<Rightarrow> py_error + search_hit list" where
  "search_similar_body db store query_embedding top_k similarity_threshold =
     (case collection store of
        None \<Rightarrow> Inl (RuntimeError ''Vector store not initialized'')
      | Some c \<Rightarrow>
          (case coll_query db c query_embedding top_k of
             Inl e \<Rightarrow> Inl e
           | Inr results \<Rightarrow>
               (case qr_documents results of
                  None \<Rightarrow> Inr []
                | Some [] \<Rightarrow> Inr []
                | Some (documents # _) \<Rightarrow>
                    if documents = [] then Inr []
                    else
                      (let metadatas =
                             (case qr_metadatas results of
                                None \<Rightarrow> replicate (length documents) []
                              | Some [] \<Rightarrow> replicate (length documents) []
                              | Some (m # _) \<Rightarrow> m);
                           distances =
                             (case qr_distances results of
                                None \<Rightarrow> replicate (length documents) 0
                              | Some [] \<Rightarrow> replicate (length documents) 0
                              | Some (d # _) \<Rightarrow> d)
                       in collect_similar similarity_threshold
                            (zip documents (zip metadatas distances)) []))))"

definition search_similar ::
  "('k, 'c) chroma \<Rightarrow> ('k, 'c) vector_store \<Rightarrow> real list \<Rightarrow> int \<Rightarrow> real \<Rightarrow> search_hit list" where
  "search_similar db store query_embedding top_k similarity_threshold =
     (case search_similar_body db store query_embedding top_k similarity_threshold of
        Inl e \<Rightarrow> []
      | Inr similar_docs \<Rightarrow> similar_docs)"

subsection \<open>\<^verbatim>\<open>delete_document\<close> and \<^verbatim>\<open>clear_collection\<close>\<close>

definition delete_document_body ::
  "('k, 'c) chroma \<Rightarrow> ('k, 'c) vector_store \<Rightarrow> string list \<Rightarrow> py_error + ('k, 'c) vector_store" where
  "delete_document_body db store ids =
     (case collection store of
        None \<Rightarrow> Inl (RuntimeError ''Vector store not initialized'')
      | Some c \<Rightarrow>
          (case coll_delete db c ids of
             Inl e \<Rightarrow> Inl e
           | Inr c' \<Rightarrow> Inr (store\<lparr>collection := Some c'\<rparr>)))"

definition delete_document ::
  "('k, 'c) chroma \<Rightarrow> ('k, 'c) vector_store \<Rightarrow> string list \<Rightarrow> bool \<times> ('k, 'c) vector_store" where
  "delete_document db store ids =
     (case delete_document_body db store ids of
        Inl e \<Rightarrow> (False, store)
      | Inr store' \<Rightarrow> (True, store'))"

text \<open>An exception of \<^verbatim>\<open>clear_collection\<close> comes with the state the store is left in: when
  \<^verbatim>\<open>delete_collection\<close> has succeeded and \<^verbatim>\<open>create_collection\<close> raises, the client has
  changed and \<^verbatim>\<open>self.collection\<close> still holds the old handle. A store without a client
  raises \<^verbatim>\<open>AttributeError\<close> at \<^verbatim>\<open>self.client.delete_collection\<close>.\<close>

definition clear_collection_body ::
  "('k, 'c) chroma \<Rightarrow> ('k, 'c) vector_store
     \<Rightarrow> (py_error \<times> ('k, 'c) vector_store) + ('k, 'c) vector_store" where
  "clear_collection_body db store =
     (case collection store of
        None \<Rightarrow> Inl (RuntimeError ''Vector store not initialized'', store)
      | Some c \<Rightarrow>
          (case client store of
             None \<Rightarrow> Inl (OtherError ''AttributeError'', store)
           | Some k \<Rightarrow>
               (case delete_collection db k (collection_name store) of
                  Inl e \<Rightarrow> Inl (e, store)
                | Inr k' \<Rightarrow>
                    (case create_collection db k' (collection_name store) of
                       Inl e \<Rightarrow> Inl (e, store\<lparr>client := Some k'\<rparr>)
                     | Inr (k'', c') \<Rightarrow>
                         Inr (store\<lparr>client := Some k'', collection := Some c'\<rparr>)))))"

definition clear_collection ::
  "('k, 'c) chroma \<Rightarrow> ('k, 'c) vector_store \<Rightarrow> bool \<times> ('k, 'c) vector_store" where
  "clear_collection db store =
     (case clear_collection_body db store of
        Inl (e, store') \<Rightarrow> (False, store')
      | Inr store' \<Rightarrow> (True, store'))"

section \<open>The configuration (\<^verbatim>\<open>rag/__init__.py\<close>)\<close>

record rag_config =
  cfg_collection_name :: string
  cfg_embedding_model_name :: string
  cfg_embedding_dimension :: nat
  cfg_chunk_size :: nat
  cfg_chunk_overlap :: nat
  cfg_max_chunks_per_doc :: nat
  cfg_default_top_k :: int
  cfg_similarity_threshold :: real
  cfg_max_query_length :: nat

text \<open>The values \<^verbatim>\<open>RAGConfig.__init__\<close> sets; the two names come from the environment.\<close>

definition RAGConfig :: "string \<Rightarrow> string \<Rightarrow> rag_config" where
  "RAGConfig vector_db_name embedding_model =
     \<lparr>cfg_collection_name = vector_db_name,
      cfg_embedding_model_name = embedding_model,
      cfg_embedding_dimension = 384,
      cfg_chunk_size = 1000,
      cfg_chunk_overlap = 200,
      cfg_max_chunks_per_doc = 100,
      cfg_default_top_k = 5,
      cfg_similarity_threshold = 7 / 10,
      cfg_max_query_length = 500\<rparr>"

section \<open>The retriever (\<^verbatim>\<open>retriever.py\<close>)\<close>

subsection \<open>More of Python's strings\<close>

text \<open>The class \<^verbatim>\<open>\w\<close> of \<^verbatim>\<open>re\<close> on code points below 256: letters, digits and other
  numeric characters, and the underscore.\<close>

definition is_word_char :: "char \<Rightarrow> bool" where
  "is_word_char c =
     (let n = (of_char c :: nat)
      in (48 \<le> n \<and> n \<le> 57) \<or> (65 \<le> n \<and> n \<le> 90) \<or> n = 95 \<or> (97 \<le> n \<and> n \<le> 122)
         \<or> n = 170 \<or> n = 178 \<or> n = 179 \<or> n = 181 \<or> n = 185 \<or> n = 186
         \<or> (188 \<le> n \<and> n \<le> 190) \<or> (192 \<le> n \<and> n \<le> 214) \<or> (216 \<le> n \<and> n \<le> 246)
         \<or> (248 \<le> n \<and> n \<le> 255))"

text \<open>\<^verbatim>\<open>str.lower\<close> on code points below 256.\<close>

definition lower_char :: "char \<Rightarrow> char" where
  "lower_char c =
     (let n = (of_char c :: nat)
      in if (65 \<le> n \<and> n \<le> 90) \<or> (192 \<le> n \<and> n \<le> 222 \<and> n \<noteq> 215)
         then char_of (n + 32) else c)"

definition py_lower :: "string \<Rightarrow> string" where
  "py_lower s = map lower_char s"

text \<open>\<^verbatim>\<open>word in document\<close> on strings: \<open>word\<close> occurs in \<open>document\<close> as a substring.\<close>

fun py_in :: "string \<Rightarrow> string \<Rightarrow> bool" where
  "py_in word [] = (word = [])"
| "py_in word (c # cs) = (take (length word) (c # cs) = word \<or> py_in word cs)"

text \<open>Python's \<^verbatim>\<open>==\<close> on metadata values. Numbers compare by value across \<^verbatim>\<open>bool\<close>,
  \<^verbatim>\<open>int\<close> and \<^verbatim>\<open>float\<close>; lists compare element by element; dictionaries compare as
  mappings. Two objects of another type are taken to be equal when they print alike.\<close>

fun py_num :: "pyval \<Rightarrow> real option" where
  "py_num (VBool b) = Some (if b then 1 else 0)"
| "py_num (VInt i) = Some (real_of_int i)"
| "py_num (VFloat r) = Some r"
| "py_num _ = None"

fun py_eq :: "pyval \<Rightarrow> pyval \<Rightarrow> bool"
  and py_eq_list :: "pyval list \<Rightarrow> pyval list \<Rightarrow> bool"
  and py_eq_items :: "(string \<times> pyval) list \<Rightarrow> (string \<times> pyval) list \<Rightarrow> bool"
where
  "py_eq (VList xs) w = (case w of VList ys \<Rightarrow> py_eq_list xs ys | _ \<Rightarrow> False)"
| "py_eq (VDict kvs) w =
     (case w of
        VDict kws \<Rightarrow> length (remdups (map fst kvs)) = length (remdups (map fst kws))
                      \<and> py_eq_items kvs kws
      | _ \<Rightarrow> False)"
| "py_eq (VStr s) w = (case w of VStr t \<Rightarrow> s = t | _ \<Rightarrow> False)"
| "py_eq VNone w = (case w of VNone \<Rightarrow> True | _ \<Rightarrow> False)"
| "py_eq (VOther s r) w = (case w of VOther s' r' \<Rightarrow> s = s' \<and> r = r' | _ \<Rightarrow> False)"
| "py_eq (VBool b) w = (py_num w = Some (if b then 1 else 0))"
| "py_eq (VInt i) w = (py_num w = Some (real_of_int i))"
| "py_eq (VFloat r) w = (py_num w = Some r)"
| "py_eq_list [] ys = (ys = [])"
| "py_eq_list (x # xs) ys = (case ys of [] \<Rightarrow> False | y # ys' \<Rightarrow> py_eq x y \<and> py_eq_list xs ys')"
| "py_eq_items [] kws = True"
| "py_eq_items ((k, v) # kvs) kws =
     ((case map_of kws k of None \<Rightarrow> False | Some w \<Rightarrow> py_eq v w) \<and> py_eq_items kvs kws)"

subsection \<open>The retriever's state\<close>

record ('k, 'c) rag_retriever =
  retriever_collection_name :: string
  embedding_model_name :: string
  embedding_model :: "embedding_model option"
  vector_store :: "('k, 'c) vector_store option"
  is_ready :: bool
  default_top_k :: int
  similarity_threshold :: real
  max_query_length :: nat

record match_info =
  exact_word_matches :: nat
  total_query_words :: nat
  match_percentage :: real
  matched_words :: "string list"

record retrieval_result =
  content :: string
  result_metadata :: metadata
  result_similarity_score :: real
  result_distance :: real
  relevance_rank :: nat
  query_match_info :: match_info

subsection \<open>Query processing\<close>

definition analyze_query_match :: "string \<Rightarrow> string \<Rightarrow> match_info" where
  "analyze_query_match doc query =
     (let doc_lower = py_lower doc;
          query_lower = py_lower query;
          query_words = py_split query_lower;
          exact_matches = filter (\<lambda>word. py_in word doc_lower) query_words
      in \<lparr>exact_word_matches = length exact_matches,
          total_query_words = length query_words,
          match_percentage =
            (if query_words \<noteq> [] then real (length exact_matches) / real (length query_words)
             else 0),
          matched_words = exact_matches\<rparr>)"

definition clean_query :: "string \<Rightarrow> string" where
  "clean_query query =
     (let q1 = py_join '' '' (py_split query);
          q2 = map (\<lambda>c. if is_word_char c \<or> is_space c \<or> c \<in> set ''.,!?'' then c else CHR '' '') q1
      in py_strip q2)"

text \<open>The metadata test of \<^verbatim>\<open>_process_search_results\<close>: the loop over the items of the
  filter that clears \<^verbatim>\<open>should_include\<close> and breaks at the first key that is missing
  or holds another value.\<close>

fun should_include :: "metadata \<Rightarrow> metadata \<Rightarrow> bool" where
  "should_include doc_metadata [] = True"
| "should_include doc_metadata ((key, val) # rest) =
     (case map_of doc_metadata key of
        None \<Rightarrow> False
      | Some v \<Rightarrow> if \<not> py_eq v val then False else should_include doc_metadata rest)"

text \<open>The loop of \<^verbatim>\<open>_process_search_results\<close>. The dictionaries it reads are the ones
  \<^verbatim>\<open>search_similar\<close> builds, which hold all four keys, so no default of \<^verbatim>\<open>doc.get\<close> is
  ever used. A filter that is \<^verbatim>\<open>None\<close> or empty is falsy and filters nothing.\<close>

fun process_loop :: "search_hit list \<Rightarrow> string \<Rightarrow> metadata option \<Rightarrow> retrieval_result list
    \<Rightarrow> retrieval_result list" where
  "process_loop [] original_query filter_metadata processed_results = processed_results"
| "process_loop (doc # rest) original_query filter_metadata processed_results =
     (if (case filter_metadata of
            None \<Rightarrow> False
          | Some flt \<Rightarrow> flt \<noteq> [] \<and> \<not> should_include (metadata doc) flt)
      then process_loop rest original_query filter_metadata processed_results
      else process_loop rest original_query filter_metadata
             (processed_results @
                [\<lparr>content = document doc,
                  result_metadata = metadata doc,
                  result_similarity_score = similarity_score doc,
                  result_distance = distance doc,
                  relevance_rank = length processed_results + 1,
                  query_match_info = analyze_query_match (document doc) original_query\<rparr>]))"

definition process_search_results ::
  "search_hit list \<Rightarrow> string \<Rightarrow> metadata option \<Rightarrow> retrieval_result list" where
  "process_search_results similar_docs original_query filter_metadata =
     process_loop similar_docs original_query filter_metadata []"

subsection \<open>\<^verbatim>\<open>retrieve\<close>\<close>

text \<open>The body of the \<^verbatim>\<open>try\<close> block, with the defaults already set. A retriever whose
  embedding model or vector store is \<^verbatim>\<open>None\<close> raises \<^verbatim>\<open>AttributeError\<close> there.
  \<^verbatim>\<open>encode_query\<close> reads its length limit from the global configuration.\<close>

definition retrieve_body ::
  "rag_config \<Rightarrow> ('k, 'c) chroma \<Rightarrow> ('k, 'c) rag_retriever \<Rightarrow> string \<Rightarrow> int \<Rightarrow> real
     \<Rightarrow> metadata option \<Rightarrow> py_error + retrieval_result list" where
  "retrieve_body cfg db r query top_k threshold filter_metadata =
     (let q = clean_query query;
          cleaned_query = (if length q > max_query_length r then take (max_query_length r) q else q)
      in case embedding_model r of
           None \<Rightarrow> Inl (OtherError ''AttributeError'')
         | Some em \<Rightarrow>
             (case encode_query (cfg_max_query_length cfg) em cleaned_query of
                Inl e \<Rightarrow> Inl e
              | Inr query_embedding \<Rightarrow>
                  (case vector_store r of
                     None \<Rightarrow> Inl (OtherError ''AttributeError'')
                   | Some store \<Rightarrow>
                       Inr (process_search_results
                              (search_similar db store query_embedding top_k threshold)
                              query filter_metadata))))"

definition retrieve ::
  "rag_config \<Rightarrow> ('k, 'c) chroma \<Rightarrow> ('k, 'c) rag_retriever \<Rightarrow> string \<Rightarrow> int option \<Rightarrow> real option
     \<Rightarrow> metadata option \<Rightarrow> py_error + retrieval_result list" where
  "retrieve cfg db r query top_k_arg threshold_arg filter_metadata =
     (if \<not> is_ready r then Inr []
      else if query = [] \<or> py_strip query = [] then Inr []
      else
        (let top_k = (case top_k_arg of
                        None \<Rightarrow> default_top_k r
                      | Some k \<Rightarrow> if k = 0 then default_top_k r else k);
             threshold = (case threshold_arg of
                            None \<Rightarrow> similarity_threshold r
                          | Some t \<Rightarrow> if t = 0 then similarity_threshold r else t)
         in case retrieve_body cfg db r query top_k threshold filter_metadata of
              Inl e \<Rightarrow> Inr []
            | Inr processed_results \<Rightarrow> Inr processed_results))"

subsection \<open>\<^verbatim>\<open>index_chunks\<close>\<close>

text \<open>A chunk is a dictionary that may lack \<^verbatim>\<open>'content'\<close> and \<^verbatim>\<open>'metadata'\<close>.\<close>

record chunk =
  chunk_content :: "string option"
  chunk_metadata :: "metadata option"

text \<open>Truthiness of a value, for \<^verbatim>\<open>if not chunk_id\<close>.\<close>

fun py_truthy :: "pyval \<Rightarrow> bool" where
  "py_truthy VNone = False"
| "py_truthy (VBool b) = b"
| "py_truthy (VInt i) = (i \<noteq> 0)"
| "py_truthy (VFloat r) = (r \<noteq> 0)"
| "py_truthy (VStr s) = (s \<noteq> [])"
| "py_truthy (VList xs) = (xs \<noteq> [])"
| "py_truthy (VDict kvs) = (kvs \<noteq> [])"
| "py_truthy (VOther s r) = True"

text \<open>The loop that collects texts, metadata and ids from the chunks.\<close>

fun collect_chunks :: "chunk list \<Rightarrow> string list \<times> pyval list \<times> pyval list
    \<Rightarrow> string list \<times> pyval list \<times> pyval list" where
  "collect_chunks [] acc = acc"
| "collect_chunks (c # rest) (texts, metadatas, ids) =
     (case chunk_content c of
        None \<Rightarrow> collect_chunks rest (texts, metadatas, ids)
      | Some txt \<Rightarrow>
          if txt = [] \<or> py_strip txt = [] then collect_chunks rest (texts, metadatas, ids)
          else
            (let md = (case chunk_metadata c of None \<Rightarrow> [] | Some m \<Rightarrow> m);
                 chunk_id = (case map_of md ''chunk_id'' of
                               None \<Rightarrow> VStr (''chunk_'' @ str_nat (length ids))
                             | Some v \<Rightarrow> if \<not> py_truthy v
                                          then VStr (''chunk_'' @ str_nat (length ids)) else v)
             in collect_chunks rest (texts @ [txt], metadatas @ [VDict md], ids @ [chunk_id])))"

text \<open>ChromaDB takes string ids only and rejects any other value.\<close>

fun string_ids :: "pyval list \<Rightarrow> py_error + string list" where
  "string_ids [] = Inr []"
| "string_ids (VStr s # rest) = (case string_ids rest of Inl e \<Rightarrow> Inl e | Inr ss \<Rightarrow> Inr (s # ss))"
| "string_ids (_ # rest) = Inl (OtherError ''ValueError'')"

definition index_chunks_body ::
  "formats \<Rightarrow> ('k, 'c) chroma \<Rightarrow> ('k, 'c) rag_retriever \<Rightarrow> chunk list
     \<Rightarrow> py_error + bool \<times> ('k, 'c) rag_retriever" where
  "index_chunks_body f db r chunks =
     (case collect_chunks chunks ([], [], []) of
        (texts, metadatas, ids) \<Rightarrow>
          if texts = [] then Inr (False, r)
          else
            (case embedding_model r of
               None \<Rightarrow> Inl (OtherError ''AttributeError'')
             | Some em \<Rightarrow>
                 (case encode_text em (Many texts) of
                    Inl e \<Rightarrow> Inl e
                  | Inr embeddings \<Rightarrow>
                      (case vector_store r of
                         None \<Rightarrow> Inl (OtherError ''AttributeError'')
                       | Some store \<Rightarrow>
                           (case string_ids ids of
                              Inl e \<Rightarrow> Inr (False, r)
                            | Inr sids \<Rightarrow>
                                (case add_documents f db store texts embeddings metadatas (Some sids) of
                                   (success, store') \<Rightarrow>
                                     Inr (success, r\<lparr>vector_store := Some store'\<rparr>)))))))"

definition index_chunks ::
  "formats \<Rightarrow> ('k, 'c) chroma \<Rightarrow> ('k, 'c) rag_retriever \<Rightarrow> chunk list
     \<Rightarrow> bool \<times> ('k, 'c) rag_retriever" where
  "index_chunks f db r chunks =
     (if \<not> is_ready r then (False, r)
      else if chunks = [] then (False, r)
      else
        (case index_chunks_body f db r chunks of
           Inl e \<Rightarrow> (False, r)
         | Inr res \<Rightarrow> res))"

definition clear_index :: "('k, 'c) chroma \<Rightarrow> ('k, 'c) rag_retriever \<Rightarrow> bool \<times> ('k, 'c) rag_retriever" where
  "clear_index db r =
     (if \<not> is_ready r then (False, r)
      else
        (case vector_store r of
           None \<Rightarrow> (False, r)
         | Some store \<Rightarrow>
             (case clear_collection db store of
                (success, store') \<Rightarrow> (success, r\<lparr>vector_store := Some store'\<rparr>))))"


section \<open>The chunk processor (\<^verbatim>\<open>chunk_processor.py\<close>)\<close>

subsection \<open>Slices, indices and searches\<close>

text \<open>\<^verbatim>\<open>xs[i:j]\<close> with Python's treatment of negative and out-of-range bounds.\<close>

definition py_slice :: "'a list \<Rightarrow> int \<Rightarrow> int \<Rightarrow> 'a list" where
  "py_slice xs i j =
     (let n = int (length xs);
          a = (if i < 0 then max (i + n) 0 else min i n);
          b = (if j < 0 then max (j + n) 0 else min j n)
      in take (nat (b - a)) (drop (nat a) xs))"

text \<open>\<^verbatim>\<open>xs[i]\<close>: a negative index counts from the end, an index out of range raises.\<close>

definition py_index :: "'a list \<Rightarrow> int \<Rightarrow> py_error + 'a" where
  "py_index xs i =
     (let n = int (length xs); k = (if i < 0 then i + n else i)
      in if 0 \<le> k \<and> k < n then Inr (xs ! nat k) else Inl IndexError)"

text \<open>\<^verbatim>\<open>s.rfind(ch)\<close>: the last position of \<open>ch\<close>, or \<open>-1\<close>.\<close>

fun rfind_from :: "char \<Rightarrow> string \<Rightarrow> int \<Rightarrow> int \<Rightarrow> int" where
  "rfind_from ch [] i found = found"
| "rfind_from ch (c # cs) i found = rfind_from ch cs (i + 1) (if c = ch then i else found)"

definition py_rfind :: "string \<Rightarrow> char \<Rightarrow> int" where
  "py_rfind s ch = rfind_from ch s 0 (- 1)"

text \<open>\<^verbatim>\<open>s.split('. ')\<close>: the pieces between the occurrences of a full stop followed by a
  space. The second argument is the piece being read.\<close>

fun split_dot_space :: "string \<Rightarrow> string \<Rightarrow> string list" where
  "split_dot_space [] cur = [cur]"
| "split_dot_space [c] cur = [cur @ [c]]"
| "split_dot_space (c # d # rest) cur =
     (if c = CHR ''.'' \<and> d = CHR '' '' then cur # split_dot_space rest []
      else split_dot_space (d # rest) (cur @ [c]))"

text \<open>\<^verbatim>\<open>re.split(r'[.!?]+', s)\<close>: the pieces between the runs of sentence punctuation.\<close>

function split_punct :: "string \<Rightarrow> string \<Rightarrow> string list" where
  "split_punct [] cur = [cur]"
| "split_punct (c # cs) cur =
     (if c \<in> set ''.!?'' then cur # split_punct (dropWhile (\<lambda>c. c \<in> set ''.!?'') cs) []
      else split_punct cs (cur @ [c]))"
  by pat_completeness auto
termination
  by (relation "measure (\<lambda>(s, cur). length s)")
     (auto simp: length_dropWhile_le le_imp_less_Suc)

text \<open>\<^verbatim>\<open>re.sub(r'\s+', ' ', s)\<close>: every run of whitespace becomes one space.\<close>

function collapse_whitespace :: "string \<Rightarrow> string" where
  "collapse_whitespace [] = []"
| "collapse_whitespace (c # cs) =
     (if is_space c then CHR '' '' # collapse_whitespace (dropWhile is_space cs)
      else c # collapse_whitespace cs)"
  by pat_completeness auto
termination
  by (relation "measure length") (auto simp: length_dropWhile_le le_imp_less_Suc)

subsection \<open>The processor\<close>

text \<open>Sizes are natural numbers. \<^verbatim>\<open>chunk_size or rag_config.chunk_size\<close> replaces a missing
  or zero argument by the configured value.\<close>

record chunk_processor =
  chunk_size :: nat
  chunk_overlap :: nat
  preserve_sentences :: bool
  max_chunks_per_doc :: nat

definition ChunkProcessor :: "rag_config \<Rightarrow> nat option \<Rightarrow> nat option \<Rightarrow> bool \<Rightarrow> chunk_processor" where
  "ChunkProcessor cfg chunk_size_arg chunk_overlap_arg preserve =
     \<lparr>chunk_size = (case chunk_size_arg of
                      None \<Rightarrow> cfg_chunk_size cfg
                    | Some n \<Rightarrow> if n = 0 then cfg_chunk_size cfg else n),
      chunk_overlap = (case chunk_overlap_arg of
                         None \<Rightarrow> cfg_chunk_overlap cfg
                       | Some n \<Rightarrow> if n = 0 then cfg_chunk_overlap cfg else n),
      preserve_sentences = preserve,
      max_chunks_per_doc = cfg_max_chunks_per_doc cfg\<rparr>"

record source_doc =
  doc_content :: "string option"
  doc_metadata :: "pyval option"
  doc_source :: "string option"

subsection \<open>\<^verbatim>\<open>_clean_text\<close> and \<^verbatim>\<open>_simple_sentence_split\<close>\<close>

definition chunk_clean_text :: "string \<Rightarrow> string" where
  "chunk_clean_text t =
     (if t = [] then []
      else
        (let t1 = collapse_whitespace t;
             t2 = map (\<lambda>c. if is_word_char c \<or> is_space c \<or> c \<in> set ''.,!?;:()-\"'' then c
                            else CHR '' '') t1;
             t3 = py_join '' '' (py_split t2)
         in py_strip t3))"

definition simple_sentence_split :: "string \<Rightarrow> string list" where
  "simple_sentence_split t =
     filter (\<lambda>sentence. sentence \<noteq> [] \<and> length sentence > 10)
       (map py_strip (split_punct t []))"

subsection \<open>\<^verbatim>\<open>_chunk_by_characters\<close>\<close>

text \<open>One pass of the loop body up to \<^verbatim>\<open>chunks.append\<close>: the window's text and its end,
  after the cut has been moved back to the last space where that space lies beyond 80
  percent of the window. \<^verbatim>\<open>last_space > chunk_size * 0.8\<close> is \<open>5 * last_space > 4 * chunk_size\<close>.\<close>

definition window :: "nat \<Rightarrow> string \<Rightarrow> int \<Rightarrow> py_error + string \<times> int" where
  "window csize txt start =
     (let end_pos = start + int csize;
          chunk_text = py_slice txt start end_pos
      in if end_pos < int (length txt)
         then (case py_index txt end_pos of
                 Inl e \<Rightarrow> Inl e
               | Inr ch \<Rightarrow>
                   if \<not> is_space ch
                   then (let last_space = py_rfind chunk_text (CHR '' '')
                         in if 5 * last_space > 4 * int csize
                            then Inr (py_slice chunk_text 0 last_space, start + last_space)
                            else Inr (chunk_text, end_pos))
                   else Inr (chunk_text, end_pos))
         else Inr (chunk_text, end_pos))"

text \<open>The \<^verbatim>\<open>while\<close> loop. Nothing forces the window to advance, so the loop may run
  forever: \<open>None\<close> is a run that does not return.\<close>

partial_function (option) chunk_loop ::
  "nat \<Rightarrow> nat \<Rightarrow> string \<Rightarrow> int \<Rightarrow> string list \<Rightarrow> (py_error + string list) option" where
  "chunk_loop csize overlap txt start chunks =
     (if start < int (length txt)
      then (case window csize txt start of
              Inl e \<Rightarrow> Some (Inl e)
            | Inr (chunk_text, end_pos) \<Rightarrow>
                if end_pos \<ge> int (length txt) then Some (Inr (chunks @ [chunk_text]))
                else chunk_loop csize overlap txt (end_pos - int overlap) (chunks @ [chunk_text]))
      else Some (Inr chunks))"

definition chunk_by_characters :: "chunk_processor \<Rightarrow> string \<Rightarrow> (py_error + string list) option" where
  "chunk_by_characters p txt = chunk_loop (chunk_size p) (chunk_overlap p) txt 0 []"

subsection \<open>\<^verbatim>\<open>_add_overlap\<close>\<close>

definition overlap_text :: "chunk_processor \<Rightarrow> string \<Rightarrow> string" where
  "overlap_text p previous_chunk =
     (let tail = (if length previous_chunk > chunk_overlap p
                  then py_slice previous_chunk (- int (chunk_overlap p)) (int (length previous_chunk))
                  else previous_chunk);
          overlap_sentences = split_dot_space tail []
      in if length overlap_sentences > 1 then last overlap_sentences else tail)"

fun overlap_from :: "chunk_processor \<Rightarrow> string \<Rightarrow> string list \<Rightarrow> string list" where
  "overlap_from p previous_chunk [] = []"
| "overlap_from p previous_chunk (current_chunk # rest) =
     (overlap_text p previous_chunk @ '' '' @ current_chunk) # overlap_from p current_chunk rest"

definition add_overlap :: "chunk_processor \<Rightarrow> string list \<Rightarrow> string list" where
  "add_overlap p chunks =
     (if length chunks \<le> 1 then chunks
      else hd chunks # overlap_from p (hd chunks) (tl chunks))"

subsection \<open>\<^verbatim>\<open>_chunk_by_sentences\<close>\<close>

text \<open>The loop over the sentences, with the list of chunks and the chunk being filled.\<close>

fun pack_sentences :: "chunk_processor \<Rightarrow> string list \<Rightarrow> string list \<Rightarrow> string
    \<Rightarrow> (py_error + string list \<times> string) option" where
  "pack_sentences p [] chunks current_chunk = Some (Inr (chunks, current_chunk))"
| "pack_sentences p (sentence # rest) chunks current_chunk =
     (let potential_chunk =
            (if current_chunk \<noteq> [] then current_chunk @ '' '' @ sentence else sentence)
      in if length potential_chunk \<le> chunk_size p
         then pack_sentences p rest chunks potential_chunk
         else
           (let chunks1 = (if current_chunk \<noteq> [] then chunks @ [current_chunk] else chunks)
            in if length sentence > chunk_size p
               then (case chunk_by_characters p sentence of
                       None \<Rightarrow> None
                     | Some (Inl e) \<Rightarrow> Some (Inl e)
                     | Some (Inr char_chunks) \<Rightarrow>
                         pack_sentences p rest (chunks1 @ butlast char_chunks)
                           (if char_chunks \<noteq> [] then last char_chunks else []))
               else pack_sentences p rest chunks1 sentence))"

text \<open>\<open>sent_tokenize\<close> is NLTK's tokenizer, an external collaborator. When importing it
  raises \<^verbatim>\<open>ImportError\<close> the processor falls back on \<open>simple_sentence_split\<close>; any other
  exception goes on to the caller.\<close>

definition chunk_by_sentences ::
  "chunk_processor \<Rightarrow> (string \<Rightarrow> py_error + string list) \<Rightarrow> string
     \<Rightarrow> (py_error + string list) option" where
  "chunk_by_sentences p sent_tokenize txt =
     (case (case sent_tokenize txt of
              Inl ImportError \<Rightarrow> Inr (simple_sentence_split txt)
            | Inl e \<Rightarrow> Inl e
            | Inr sentences \<Rightarrow> Inr sentences) of
        Inl e \<Rightarrow> Some (Inl e)
      | Inr sentences \<Rightarrow>
          (case pack_sentences p sentences [] [] of
             None \<Rightarrow> None
           | Some (Inl e) \<Rightarrow> Some (Inl e)
           | Some (Inr (chunks, current_chunk)) \<Rightarrow>
               Some (Inr (add_overlap p
                            (if current_chunk \<noteq> [] then chunks @ [current_chunk] else chunks)))))"

subsection \<open>\<^verbatim>\<open>process_document\<close>\<close>

text \<open>The dictionary built for the chunk at index \<open>i\<close> of \<^verbatim>\<open>enumerate(chunks)\<close>. \<open>clock i\<close>
  is what \<^verbatim>\<open>_get_timestamp\<close> returns while that chunk is processed.\<close>

definition make_chunk :: "string \<Rightarrow> pyval \<Rightarrow> (nat \<Rightarrow> string) \<Rightarrow> nat \<Rightarrow> string \<Rightarrow> chunk" where
  "make_chunk source_path source_metadata clock i chunk_text =
     \<lparr>chunk_content = Some (py_strip chunk_text),
      chunk_metadata = Some
        [(''chunk_id'', VStr (source_path @ ''_chunk_'' @ str_nat i)),
         (''chunk_index'', VInt (int i)),
         (''source_document'', VStr source_path),
         (''source_metadata'', source_metadata),
         (''chunk_size'', VInt (int (length chunk_text))),
         (''word_count'', VInt (int (length (py_split chunk_text)))),
         (''created_at'', VStr (clock i))]\<rparr>"

text \<open>The loop over \<^verbatim>\<open>enumerate(chunks)\<close>; \<open>i\<close> is the index of the chunk at the head of the
  list.\<close>

fun emit_chunks :: "chunk_processor \<Rightarrow> string \<Rightarrow> pyval \<Rightarrow> (nat \<Rightarrow> string) \<Rightarrow> nat \<Rightarrow> string list
    \<Rightarrow> chunk list \<Rightarrow> chunk list" where
  "emit_chunks p source_path source_metadata clock i [] processed_chunks = processed_chunks"
| "emit_chunks p source_path source_metadata clock i (chunk_text # rest) processed_chunks =
     (if length (py_strip chunk_text) < 50
      then emit_chunks p source_path source_metadata clock (i + 1) rest processed_chunks
      else
        (let processed = processed_chunks @
               [make_chunk source_path source_metadata clock i chunk_text]
         in if length processed \<ge> max_chunks_per_doc p then processed
            else emit_chunks p source_path source_metadata clock (i + 1) rest processed))"

text \<open>The value of the variable \<^verbatim>\<open>chunks\<close> of \<^verbatim>\<open>process_document\<close>: the segments of the
  cleaned text, before small ones are skipped.\<close>

definition segment_text ::
  "chunk_processor \<Rightarrow> (string \<Rightarrow> py_error + string list) \<Rightarrow> string
     \<Rightarrow> (py_error + string list) option" where
  "segment_text p sent_tokenize cleaned_text =
     (if preserve_sentences p then chunk_by_sentences p sent_tokenize cleaned_text
      else chunk_by_characters p cleaned_text)"

text \<open>\<open>None\<close> is a call that does not return. An exception raised inside the \<^verbatim>\<open>try\<close>
  block is logged and the result is the empty list. A document without
  \<^verbatim>\<open>'content'\<close> has \<open>doc_content = None\<close>.\<close>

definition process_document ::
  "chunk_processor \<Rightarrow> (string \<Rightarrow> py_error + string list) \<Rightarrow> (nat \<Rightarrow> string) \<Rightarrow> source_doc
     \<Rightarrow> chunk list option" where
  "process_document p sent_tokenize clock d =
     (case doc_content d of
        None \<Rightarrow> Some []
      | Some content_text \<Rightarrow>
          if content_text = [] \<or> py_strip content_text = [] then Some []
          else
            (case segment_text p sent_tokenize (chunk_clean_text content_text) of
               None \<Rightarrow> None
             | Some (Inl e) \<Rightarrow> Some []
             | Some (Inr chunks) \<Rightarrow>
                 Some (emit_chunks p
                         (case doc_source d of None \<Rightarrow> ''unknown'' | Some s \<Rightarrow> s)
                         (case doc_metadata d of None \<Rightarrow> VDict [] | Some m \<Rightarrow> m)
                         clock 0 chunks [])))"

fun process_multiple_documents ::
  "chunk_processor \<Rightarrow> (string \<Rightarrow> py_error + string list) \<Rightarrow> (nat \<Rightarrow> string) \<Rightarrow> source_doc list
     \<Rightarrow> chunk list option" where
  "process_multiple_documents p sent_tokenize clock [] = Some []"
| "process_multiple_documents p sent_tokenize clock (d # ds) =
     (case process_document p sent_tokenize clock d of
        None \<Rightarrow> None
      | Some chunks \<Rightarrow>
          (case process_multiple_documents p sent_tokenize clock ds of
             None \<Rightarrow> None
           | Some others \<Rightarrow> Some (chunks @ others)))"


section \<open>An in-memory collection for the examples\<close>

text \<open>A stand-in for ChromaDB that the examples below run on: a collection is the list of
  its entries, a query returns the \<open>k\<close> entries nearest to the query vector by squared
  Euclidean distance.\<close>

definition l2 :: "real list \<Rightarrow> real list \<Rightarrow> real" where
  "l2 u v = (\<Sum>(a, b) \<leftarrow> zip u v. (a - b)\<^sup>2)"

type_synonym entry = "string \<times> string \<times> real list \<times> metadata"

definition memory_chroma :: "(unit, entry list) chroma" where
  "memory_chroma =
     \<lparr>coll_count = length,
      coll_add = (\<lambda>c docs embs mds ids. Inr (c @ zip ids (zip docs (zip embs mds)))),
      coll_query = (\<lambda>c q k.
         (let found = take (nat k) (sort_key (\<lambda>(i, doc, emb, md). l2 q emb) c)
          in Inr \<lparr>qr_documents = Some [map (\<lambda>(i, doc, emb, md). doc) found],
                  qr_metadatas = Some [map (\<lambda>(i, doc, emb, md). md) found],
                  qr_distances = Some [map (\<lambda>(i, doc, emb, md). l2 q emb) found]\<rparr>)),
      coll_delete = (\<lambda>c ids. Inr (filter (\<lambda>(i, doc, emb, md). i \<notin> set ids) c)),
      delete_collection = (\<lambda>k name. Inr k),
      create_collection = (\<lambda>k name. Inr (k, []))\<rparr>"

definition two_entries :: "(unit, entry list) vector_store" where
  "two_entries =
     \<lparr>collection_name = ''docs'', client = Some (),
      collection = Some [(''doc_0'', ''far'', [7], [(''n'', VInt 0)]),
                         (''doc_1'', ''near'', [4], [(''n'', VInt 1)])]\<rparr>"

text \<open>Two entries whose distances from the query \<open>[0]\<close> are \<open>0\<close> and \<^verbatim>\<open>2 ** -60\<close>.\<close>

definition close_entries :: "(unit, entry list) vector_store" where
  "close_entries =
     \<lparr>collection_name = ''docs'', client = Some (),
      collection = Some [(''doc_0'', ''here'', [0], []),
                         (''doc_1'', ''close'', [1 / 2 ^ 30], [])]\<rparr>"

definition uninitialized_store :: "(unit, entry list) vector_store" where
  "uninitialized_store = \<lparr>collection_name = ''docs'', client = None, collection = None\<rparr>"

definition empty_store :: "(unit, entry list) vector_store" where
  "empty_store = \<lparr>collection_name = ''docs'', client = Some (), collection = Some []\<rparr>"

text \<open>A stand-in for the sentence-transformers model: the vector of a text is its length.\<close>

definition length_encoder :: "embedding_model" where
  "length_encoder =
     \<lparr>model_name = ''length'',
      model = Some (\<lambda>ts. Inr (map (\<lambda>t. [real (length t)]) ts)),
      dimension = 1\<rparr>"

definition ready_retriever :: "(unit, entry list) rag_retriever" where
  "ready_retriever =
     \<lparr>retriever_collection_name = ''docs'', embedding_model_name = ''length'',
      embedding_model = Some length_encoder, vector_store = Some two_entries,
      is_ready = True, default_top_k = 5, similarity_threshold = 7 / 10,
      max_query_length = 500\<rparr>"

definition unready_retriever :: "(unit, entry list) rag_retriever" where
  "unready_retriever =
     \<lparr>retriever_collection_name = ''docs'', embedding_model_name = ''length'',
      embedding_model = None, vector_store = None,
      is_ready = False, default_top_k = 5, similarity_threshold = 7 / 10,
      max_query_length = 500\<rparr>"

definition plain_formats :: formats where
  "plain_formats = \<lparr>float_repr = (\<lambda>r. ''float''), str_repr = (\<lambda>s. [CHR 39] @ s @ [CHR 39])\<rparr>"

subsection \<open>Example documents\<close>

text \<open>\<open>no_nltk\<close> is an installation without NLTK: the import raises and the processor falls
  back on its own sentence splitter.\<close>

definition no_nltk :: "string \<Rightarrow> py_error + string list" where
  "no_nltk t = Inl ImportError"

definition small_processor :: chunk_processor where
  "small_processor = ChunkProcessor (RAGConfig ''docs'' ''length'') (Some 60) (Some 10) True"

definition three_sentences :: source_doc where
  "three_sentences =
     \<lparr>doc_content = Some
        ''Vector stores keep chunks for retrievals. Chunks overlap by a few chars. Queries are matched by vectors.'',
      doc_metadata = None,
      doc_source = Some ''a.txt''\<rparr>"

definition fixed_clock :: "nat \<Rightarrow> string" where
  "fixed_clock i = ''2024-01-01 00:00:00''"

definition char_processor :: chunk_processor where
  "char_processor = ChunkProcessor (RAGConfig ''docs'' ''length'') (Some 40) (Some 10) False"

definition long_word :: source_doc where
  "long_word =
     \<lparr>doc_content = Some (replicate 5000 (CHR ''a'')), doc_metadata = None,
      doc_source = Some ''b.txt''\<rparr>"

definition capped_processor :: chunk_processor where
  "capped_processor =
     ChunkProcessor ((RAGConfig ''docs'' ''length'')\<lparr>cfg_max_chunks_per_doc := 1\<rparr>)
       (Some 60) (Some 10) True"

definition two_sentences :: source_doc where
  "two_sentences =
     \<lparr>doc_content = Some
        ''The retriever ranks each stored chunk by its similarity. Chunks that score below the threshold are never returned.'',
      doc_metadata = None,
      doc_source = Some ''c.txt''\<rparr>"

section \<open>Facts about double rounding\<close>

text \<open>Rounding to the nearest integer and to the nearest double is monotone, and powers
  of two in range are doubles.\<close>

lemma round_even_of_int: "round_even (of_int n) = n"
  by (simp add: round_even_def)

lemma round_even_bounds: "\<lfloor>q\<rfloor> \<le> round_even q \<and> round_even q \<le> \<lfloor>q\<rfloor> + 1"
  by (simp add: round_even_def Let_def)

lemma round_even_mono:
  assumes "q1 \<le> q2"
  shows "round_even q1 \<le> round_even q2"
proof (cases "\<lfloor>q1\<rfloor> = \<lfloor>q2\<rfloor>")
  case True
  with assms have "q1 - of_int \<lfloor>q1\<rfloor> \<le> q2 - of_int \<lfloor>q2\<rfloor>" by simp
  with True show ?thesis
    by (auto simp: round_even_def Let_def)
next
  case False
  with assms have "\<lfloor>q1\<rfloor> + 1 \<le> \<lfloor>q2\<rfloor>"
    using floor_mono [OF assms] by linarith
  with round_even_bounds [of q1] round_even_bounds [of q2] show ?thesis
    by linarith
qed

lemma round_even_near:
  "of_int n \<le> q \<Longrightarrow> q < of_int n + 1 / 2 \<Longrightarrow> round_even q = n"
proof -
  assume a: "of_int n \<le> q" "q < of_int n + 1 / 2"
  then have "\<lfloor>q\<rfloor> = n" by linarith
  with a show ?thesis by (simp add: round_even_def Let_def)
qed

lemma pow2_ratio:
  assumes "k \<le> b"
  shows "(2::real) powr of_int b / 2 powr of_int k = of_int (2 ^ nat (b - k))"
proof -
  have "(2::real) powr of_int b / 2 powr of_int k = 2 powr (of_int b - of_int k)"
    by (simp add: powr_diff)
  also have "of_int b - of_int k = real (nat (b - k))"
    using assms by simp
  also have "(2::real) powr real (nat (b - k)) = 2 ^ nat (b - k)"
    by (simp add: powr_realpow)
  finally show ?thesis by simp
qed

lemma scaled_round_le:
  assumes "x \<le> 2 powr of_int b" "k \<le> b"
  shows "of_int (round_even (x / 2 powr of_int k)) * 2 powr of_int k \<le> (2::real) powr of_int b"
proof -
  have pos: "(0::real) < 2 powr of_int k" by simp
  from assms(1) pos have "x / 2 powr of_int k \<le> 2 powr of_int b / 2 powr of_int k"
    by (simp add: divide_right_mono)
  then have "round_even (x / 2 powr of_int k) \<le> round_even (of_int (2 ^ nat (b - k)))"
    unfolding pow2_ratio [OF assms(2)] by (rule round_even_mono)
  then have "round_even (x / 2 powr of_int k) \<le> 2 ^ nat (b - k)"
    by (simp only: round_even_of_int)
  then have le: "(of_int (round_even (x / 2 powr of_int k)) :: real) \<le> of_int (2 ^ nat (b - k))"
    by (simp only: of_int_le_iff)
  have "of_int (round_even (x / 2 powr of_int k)) * (2::real) powr of_int k
               \<le> of_int (2 ^ nat (b - k)) * 2 powr of_int k"
    by (rule mult_right_mono [OF le]) simp
  also have "of_int (2 ^ nat (b - k)) * (2::real) powr of_int k = 2 powr of_int b"
    using pow2_ratio [OF assms(2)] pos by (simp add: field_simps)
  finally show ?thesis .
qed

lemma scaled_round_ge:
  assumes "2 powr of_int b \<le> y" "k \<le> b"
  shows "(2::real) powr of_int b \<le> of_int (round_even (y / 2 powr of_int k)) * 2 powr of_int k"
proof -
  have pos: "(0::real) < 2 powr of_int k" by simp
  from assms(1) pos have "2 powr of_int b / 2 powr of_int k \<le> y / 2 powr of_int k"
    by (simp add: divide_right_mono)
  then have "round_even (of_int (2 ^ nat (b - k))) \<le> round_even (y / 2 powr of_int k)"
    unfolding pow2_ratio [OF assms(2)] by (rule round_even_mono)
  then have "2 ^ nat (b - k) \<le> round_even (y / 2 powr of_int k)"
    by (simp only: round_even_of_int)
  then have le: "(of_int (2 ^ nat (b - k)) :: real) \<le> of_int (round_even (y / 2 powr of_int k))"
    by (simp only: of_int_le_iff)
  have "(2::real) powr of_int b = of_int (2 ^ nat (b - k)) * 2 powr of_int k"
    using pow2_ratio [OF assms(2)] pos by (simp add: field_simps)
  also have "\<dots> \<le> of_int (round_even (y / 2 powr of_int k)) * 2 powr of_int k"
    by (rule mult_right_mono [OF le]) simp
  finally show ?thesis .
qed

lemma floor_log2_bounds:
  assumes "0 < x"
  shows "2 powr of_int \<lfloor>log 2 x\<rfloor> \<le> x" "x < 2 powr of_int (\<lfloor>log 2 x\<rfloor> + 1)"
  using floor_log_eq_powr_iff [of x 2 "\<lfloor>log 2 x\<rfloor>"] assms by simp_all

lemma floor_log2_le:
  assumes "0 < x" "x \<le> 2 powr of_int b"
  shows "\<lfloor>log 2 x\<rfloor> \<le> b"
proof -
  from assms have "log 2 x \<le> of_int b"
    by (simp add: log_le_iff)
  then show ?thesis by (simp add: floor_le_iff)
qed

lemma floor_log2_ge:
  assumes "2 powr of_int b \<le> x"
  shows "b \<le> \<lfloor>log 2 x\<rfloor>"
proof -
  have "0 < 2 powr (of_int b :: real)" by simp
  with assms have x: "0 < x" by linarith
  with assms have "of_int b \<le> log 2 x"
    by (simp add: le_log_iff)
  then show ?thesis by (simp add: le_floor_iff)
qed

lemma double_round_le_pow2:
  assumes "0 < x" "x \<le> 2 powr of_int b" "- 1074 \<le> b"
  shows "double_round x \<le> 2 powr of_int b"
proof -
  let ?k = "max (\<lfloor>log 2 \<bar>x\<bar>\<rfloor> - 52) (- 1074)"
  from floor_log2_le [OF assms(1,2)] assms have "?k \<le> b" by simp
  from scaled_round_le [OF assms(2) this] assms(1) show ?thesis
    by (simp add: double_round_def Let_def)
qed

lemma double_round_ge_pow2:
  assumes "2 powr of_int b \<le> y" "- 1074 \<le> b"
  shows "2 powr of_int b \<le> double_round y"
proof -
  have "0 < 2 powr (of_int b :: real)" by simp
  with assms have y: "0 < y" by linarith
  let ?e = "\<lfloor>log 2 y\<rfloor>"
  let ?k = "max (?e - 52) (- 1074)"
  from floor_log2_ge [OF assms(1)] have be: "b \<le> ?e" .
  with assms(2) have "- 1074 \<le> ?e" by (rule_tac order_trans)
  then have k: "?k \<le> ?e" by simp
  from scaled_round_ge [OF floor_log2_bounds(1) [OF y] k] y
  have "2 powr of_int ?e \<le> double_round y"
    by (simp add: double_round_def Let_def)
  moreover from be have "(2::real) powr of_int b \<le> 2 powr of_int ?e"
    by (simp add: powr_mono)
  ultimately show ?thesis by linarith
qed

lemma double_round_nonneg: "0 \<le> x \<Longrightarrow> 0 \<le> double_round x"
proof -
  assume x: "0 \<le> x"
  have "0 \<le> round_even (x / 2 powr of_int k)" for k
    using round_even_mono [of 0 "x / 2 powr of_int k"] x round_even_of_int [of 0] by simp
  then show ?thesis
    by (simp add: double_round_def Let_def)
qed

lemma double_round_mono:
  assumes "0 < x" "x \<le> y"
  shows "double_round x \<le> double_round y"
proof -
  from assms have y: "0 < y" by linarith
  define ex where "ex = \<lfloor>log 2 x\<rfloor>"
  define ey where "ey = \<lfloor>log 2 y\<rfloor>"
  define kx where "kx = max (ex - 52) (- 1074)"
  define ky where "ky = max (ey - 52) (- 1074)"
  have dx: "double_round x = of_int (round_even (x / 2 powr of_int kx)) * 2 powr of_int kx"
    using assms(1) by (simp add: double_round_def Let_def kx_def ex_def)
  have dy: "double_round y = of_int (round_even (y / 2 powr of_int ky)) * 2 powr of_int ky"
    using y by (simp add: double_round_def Let_def ky_def ey_def)
  from assms y have "log 2 x \<le> log 2 y" by simp
  then have e: "ex \<le> ey" unfolding ex_def ey_def by (rule floor_mono)
  show ?thesis
  proof (cases "kx = ky")
    case True
    have pos: "(0::real) < 2 powr of_int ky" by simp
    from assms(2) pos have "x / 2 powr of_int ky \<le> y / 2 powr of_int ky"
      by (simp add: divide_right_mono)
    then have "round_even (x / 2 powr of_int ky) \<le> round_even (y / 2 powr of_int ky)"
      by (rule round_even_mono)
    then have le: "(of_int (round_even (x / 2 powr of_int ky)) :: real)
                 \<le> of_int (round_even (y / 2 powr of_int ky))"
      by (simp only: of_int_le_iff)
    have "of_int (round_even (x / 2 powr of_int ky)) * (2::real) powr of_int ky
                 \<le> of_int (round_even (y / 2 powr of_int ky)) * 2 powr of_int ky"
      by (rule mult_right_mono [OF le]) simp
    with dx dy True show ?thesis by (simp only:)
  next
    case False
    with e have ey: "ex + 1 \<le> ey" "kx \<le> ey" "- 1074 \<le> ey" and kx: "- 1074 \<le> kx"
      unfolding kx_def ky_def by linarith+
    define b where "b = max (ex + 1) kx"
    from ey kx have b: "b \<le> ey" "- 1074 \<le> b"
      unfolding b_def by linarith+
    have "ex + 1 \<le> b" unfolding b_def by linarith
    from floor_log2_bounds(2) [OF assms(1)] have "x \<le> 2 powr of_int (ex + 1)"
      unfolding ex_def by simp
    also from \<open>ex + 1 \<le> b\<close> have "\<dots> \<le> 2 powr of_int b"
      by (intro powr_mono) simp_all
    finally have "x \<le> 2 powr of_int b" .
    from double_round_le_pow2 [OF assms(1) this b(2)] have "double_round x \<le> 2 powr of_int b" .
    also from b(1) have "(2::real) powr of_int b \<le> 2 powr of_int ey"
      by (intro powr_mono) simp_all
    also from double_round_ge_pow2 [OF floor_log2_bounds(1) [OF y]] ey(3)
    have "2 powr of_int ey \<le> double_round y"
      unfolding ey_def by blast
    finally show ?thesis .
  qed
qed

lemma double_round_1: "double_round 1 = 1"
proof -
  from double_round_le_pow2 [of 1 0] have "double_round 1 \<le> 1" by simp
  moreover from double_round_ge_pow2 [of 0 1] have "1 \<le> double_round 1" by simp
  ultimately show ?thesis by simp
qed


lemma double_round_eval:
  assumes "2 powr of_int e \<le> x" "x < 2 powr of_int (e + 1)"
  shows "double_round x =
           of_int (round_even (x / 2 powr of_int (max (e - 52) (- 1074))))
             * 2 powr of_int (max (e - 52) (- 1074))"
proof -
  have "0 < 2 powr (of_int e :: real)" by simp
  with assms(1) have x: "0 < x" by linarith
  from assms x have "\<lfloor>log 2 x\<rfloor> = e"
    using floor_log_eq_powr_iff [of x 2 e] by simp
  with x show ?thesis
    by (simp add: double_round_def Let_def)
qed

lemma double_round_above_1: "double_round (1 + 1 / 2 ^ 60) = 1"
proof -
  let ?x = "1 + 1 / 2 ^ 60 :: real"
  have "2 powr of_int 0 \<le> ?x" "?x < 2 powr of_int (0 + 1)"
    by simp_all
  from double_round_eval [OF this]
  have "double_round ?x = of_int (round_even (?x / 2 powr (- 52))) * 2 powr (- 52)"
    by simp
  moreover have "?x / 2 powr (- 52) = 2 ^ 52 + 1 / 2 ^ 8"
    by (simp add: powr_minus field_simps)
  moreover have "round_even (2 ^ 52 + 1 / 2 ^ 8) = 2 ^ 52"
    by (rule round_even_near) simp_all
  ultimately show ?thesis
    by (simp add: powr_minus)
qed

lemma float_add_1_0: "float_add 1 0 = 1"
  by (simp add: float_add_def double_round_1)

lemma float_div_1_1: "float_div 1 1 = 1"
  by (simp add: float_div_def double_round_1)

lemma float_add_1_tiny: "float_add 1 (1 / 2 ^ 60) = 1"
  by (simp only: float_add_def double_round_above_1)

lemma float_add_1_9: "8 \<le> float_add 1 9"
  using double_round_ge_pow2 [of 3 10] by (simp add: float_add_def)

lemma float_div_1_large:
  assumes "8 \<le> a"
  shows "float_div 1 a \<le> 1 / 8"
proof -
  from assms have "0 < 1 / a" "1 / a \<le> 2 powr of_int (- 3)"
    by (simp_all add: powr_minus field_simps)
  from double_round_le_pow2 [OF this] show ?thesis
    by (simp add: float_div_def powr_minus)
qed

lemma float_add_pos:
  assumes "- 1 < d" "float_add 1 d \<noteq> 0"
  shows "0 < float_add 1 d"
  using double_round_nonneg [of "1 + d"] assms by (simp add: float_add_def)

lemma similarity_antimono:
  assumes "- 1 < d1" "d1 \<le> d2" "float_add 1 d1 \<noteq> 0"
  shows "float_div 1 (float_add 1 d2) \<le> float_div 1 (float_add 1 d1)"
proof -
  from assms have pos: "0 < float_add 1 d1" by (simp add: float_add_pos)
  from assms have le: "float_add 1 d1 \<le> float_add 1 d2"
    unfolding float_add_def by (intro double_round_mono) simp_all
  with pos have "0 < 1 / float_add 1 d2" by simp
  moreover from pos le have "1 / float_add 1 d2 \<le> 1 / float_add 1 d1"
    by (simp add: frac_le)
  ultimately show ?thesis
    unfolding float_div_def by (rule double_round_mono)
qed

section \<open>Facts about strings\<close>

lemma concat_split_ws: "concat (split_ws s cur) = cur @ filter (\<lambda>c. \<not> is_space c) s"
  by (induction s arbitrary: cur) auto

lemma filter_dropWhile_space:
  "filter (\<lambda>c. \<not> is_space c) (dropWhile is_space s) = filter (\<lambda>c. \<not> is_space c) s"
  by (induction s) auto

lemma filter_rev_dropWhile_space:
  "filter (\<lambda>c. \<not> is_space c) (rev (dropWhile is_space xs)) = filter (\<lambda>c. \<not> is_space c) (rev xs)"
proof -
  have "filter (\<lambda>c. \<not> is_space c) (rev (dropWhile is_space xs))
      = rev (filter (\<lambda>c. \<not> is_space c) (dropWhile is_space xs))"
    by (rule rev_filter [symmetric])
  also have "\<dots> = rev (filter (\<lambda>c. \<not> is_space c) xs)"
    by (simp only: filter_dropWhile_space)
  also have "\<dots> = filter (\<lambda>c. \<not> is_space c) (rev xs)"
    by (rule rev_filter)
  finally show ?thesis .
qed

lemma filter_py_strip: "filter (\<lambda>c. \<not> is_space c) (py_strip s) = filter (\<lambda>c. \<not> is_space c) s"
proof -
  have "filter (\<lambda>c. \<not> is_space c) (py_strip s)
      = filter (\<lambda>c. \<not> is_space c) (rev (rev (dropWhile is_space s)))"
    unfolding py_strip_def by (rule filter_rev_dropWhile_space)
  also have "\<dots> = filter (\<lambda>c. \<not> is_space c) s"
    by (simp only: rev_rev_ident filter_dropWhile_space)
  finally show ?thesis .
qed

lemma clean_text_filter: "clean_text t = filter (\<lambda>c. \<not> is_space c) t"
proof (cases "t = [] \<or> py_strip t = []")
  case True
  then have "filter (\<lambda>c. \<not> is_space c) t = []"
    using filter_py_strip [of t] by auto
  with True show ?thesis by (simp add: clean_text_def)
next
  case False
  then show ?thesis
    by (simp add: clean_text_def py_split_def concat_split_ws filter_py_strip)
qed

lemma clean_text_split: "clean_text t = concat (py_split t)"
  by (simp add: clean_text_filter py_split_def concat_split_ws)

subsection \<open>\<^verbatim>\<open>search_similar\<close>\<close>

lemma collect_similar_sound:
  "collect_similar thr zs acc = Inr out \<Longrightarrow>
   out = acc @ map (\<lambda>(doc, md, d). \<lparr>document = doc, metadata = md,
                                   similarity_score = float_div 1 (float_add 1 d), distance = d\<rparr>)
                 (filter (\<lambda>(doc, md, d). thr \<le> float_div 1 (float_add 1 d)) zs)
   \<and> (\<forall>z \<in> set zs. float_add 1 (snd (snd z)) \<noteq> 0)"
proof (induction zs arbitrary: acc)
  case Nil
  then show ?case by simp
next
  case (Cons z zs)
  obtain doc md d where z: "z = (doc, md, d)" by (cases z) auto
  from Cons.prems z have nz: "float_add 1 d \<noteq> 0"
    by (auto split: if_splits)
  show ?case
  proof (cases "thr \<le> float_div 1 (float_add 1 d)")
    case True
    with Cons.prems z nz
    have "collect_similar thr zs (acc @ [\<lparr>document = doc, metadata = md,
              similarity_score = float_div 1 (float_add 1 d), distance = d\<rparr>]) = Inr out"
      by (simp add: Let_def)
    from Cons.IH [OF this] True z nz show ?thesis by simp
  next
    case False
    with Cons.prems z nz have "collect_similar thr zs acc = Inr out"
      by (simp add: Let_def)
    from Cons.IH [OF this] False z nz show ?thesis by simp
  qed
qed

lemma collect_similar_complete:
  "\<forall>z \<in> set zs. float_add 1 (snd (snd z)) \<noteq> 0 \<Longrightarrow> \<exists>out. collect_similar thr zs acc = Inr out"
proof (induction zs arbitrary: acc)
  case Nil
  then show ?case by simp
next
  case (Cons z zs)
  obtain doc md d where z: "z = (doc, md, d)" by (cases z) auto
  with Cons.prems have nz: "float_add 1 d \<noteq> 0"
    and rest: "\<forall>z \<in> set zs. float_add 1 (snd (snd z)) \<noteq> 0"
    by auto
  from Cons.IH [OF rest] nz z show ?case
    by (simp add: Let_def)
qed

lemma search_similar_body_collect:
  assumes "search_similar_body db store qe k thr = Inr out"
  shows "\<exists>zs. collect_similar thr zs [] = Inr out"
proof (cases "out = []")
  case True
  then have "collect_similar thr [] [] = Inr out" by simp
  then show ?thesis ..
next
  case False
  with assms show ?thesis
    unfolding search_similar_body_def Let_def
    by (simp split: sum.splits option.splits list.splits if_splits) blast+
qed

lemma search_similar_hits:
  assumes "h \<in> set (search_similar db store qe k thr)"
  shows "similarity_score h = float_div 1 (float_add 1 (distance h))
         \<and> thr \<le> similarity_score h \<and> float_add 1 (distance h) \<noteq> 0"
proof (cases "search_similar_body db store qe k thr")
  case (Inl e)
  with assms show ?thesis by (simp add: search_similar_def)
next
  case (Inr out)
  with assms have h: "h \<in> set out" by (simp add: search_similar_def)
  from search_similar_body_collect [OF Inr] obtain zs
    where "collect_similar thr zs [] = Inr out" ..
  from collect_similar_sound [OF this] h show ?thesis
    by auto
qed


lemma memory_query_two_entries:
  "coll_query memory_chroma
     [(''doc_0'', ''far'', [7], [(''n'', VInt 0)]), (''doc_1'', ''near'', [4], [(''n'', VInt 1)])]
     [4] 5 =
   Inr \<lparr>qr_documents = Some [[''near'', ''far'']],
        qr_metadatas = Some [[[(''n'', VInt 1)], [(''n'', VInt 0)]]],
        qr_distances = Some [[0, 9]]\<rparr>"
  by (simp add: memory_chroma_def l2_def)


subsection \<open>\<^verbatim>\<open>retrieve\<close>\<close>

lemma retrieve_never_raises: "\<exists>res. retrieve cfg db r query tk th flt = Inr res"
  by (simp add: retrieve_def Let_def split: sum.splits)

lemma clean_query_near: "clean_query ''near'' = ''near''"
  by (simp add: clean_query_def py_split_def py_strip_def is_space_def is_word_char_def)

lemma encode_query_near: "encode_query 500 length_encoder ''near'' = Inr [4]"
  by (simp add: encode_query_def encode_text_def length_encoder_def clean_text_filter is_space_def)


lemma search_two_entries_default: "search_similar memory_chroma two_entries [4] 5 (7 / 10) =
   [\<lparr>document = ''near'', metadata = [(''n'', VInt 1)], similarity_score = 1, distance = 0\<rparr>]"
proof -
  have "float_div 1 (float_add 1 9) \<le> 1 / 8" "float_add 1 9 \<noteq> 0"
    using float_div_1_large [OF float_add_1_9] float_add_1_9 by simp_all
  then show ?thesis
    by (simp add: search_similar_def search_similar_body_def two_entries_def
          memory_query_two_entries float_add_1_0 float_div_1_1)
qed

lemma analyze_query_match_near: "analyze_query_match ''near'' ''near'' =
   \<lparr>exact_word_matches = 1, total_query_words = 1, match_percentage = 1, matched_words = [''near'']\<rparr>"
  by (simp add: analyze_query_match_def py_lower_def lower_char_def py_split_def is_space_def)


subsection \<open>\<^verbatim>\<open>_process_search_results\<close>\<close>

lemma should_include_iff:
  "should_include md flt \<longleftrightarrow>
     (\<forall>(key, val) \<in> set flt. \<exists>w. map_of md key = Some w \<and> py_eq w val)"
  by (induction flt) (auto split: option.splits if_splits)

lemma process_loop_eq:
  "process_loop docs q flt acc =
     acc @ map (\<lambda>(i, d). \<lparr>content = document d, result_metadata = metadata d,
                          result_similarity_score = similarity_score d,
                          result_distance = distance d, relevance_rank = i + 1,
                          query_match_info = analyze_query_match (document d) q\<rparr>)
             (enumerate (length acc)
                (filter (\<lambda>d. case flt of None \<Rightarrow> True
                              | Some fl \<Rightarrow> fl = [] \<or> should_include (metadata d) fl) docs))"
proof (induction docs arbitrary: acc)
  case Nil
  then show ?case by simp
next
  case (Cons d docs)
  show ?case
    by (simp add: Cons.IH split: option.splits)
qed

lemma analyze_query_match_no_match:
  "analyze_query_match ''b'' ''x'' =
     \<lparr>exact_word_matches = 0, total_query_words = 1, match_percentage = 0, matched_words = []\<rparr>"
  "analyze_query_match ''c'' ''x'' =
     \<lparr>exact_word_matches = 0, total_query_words = 1, match_percentage = 0, matched_words = []\<rparr>"
  by (simp_all add: analyze_query_match_def py_lower_def lower_char_def py_split_def is_space_def)


subsection \<open>Metadata flattening\<close>

lemma spec_paths_nonempty: "(p, x) \<in> set (spec_paths kvs) \<Longrightarrow> p \<noteq> []"
  by (induction kvs arbitrary: p x rule: spec_paths.induct) (fastforce split: pyval.splits)+

lemma py_join_Cons: "ps \<noteq> [] \<Longrightarrow> py_join sep (k # ps) = k @ sep @ py_join sep ps"
  by (cases ps) auto

lemma flatten_items_prefixed:
  "prefix \<noteq> [] \<Longrightarrow>
   flatten_items f kvs prefix fl =
     fold (\<lambda>(p, v). AList.update (prefix @ ''_'' @ py_join ''_'' p) (spec_leaf f v))
       (spec_paths kvs) fl"
proof (induction kvs arbitrary: prefix fl rule: spec_paths.induct)
  case 1
  then show ?case by simp
next
  case (2 k v rest)
  let ?new = "prefix @ ''_'' @ k"
  have rest: "\<And>fl'. flatten_items f rest prefix fl' =
     fold (\<lambda>(p, v). AList.update (prefix @ ''_'' @ py_join ''_'' p) (spec_leaf f v))
       (spec_paths rest) fl'"
    using "2.IH"(2) "2.prems" by simp
  show ?case
  proof (cases v)
    case (VDict sub)
    have "flatten_items f sub ?new fl =
      fold (\<lambda>(p, v). AList.update (?new @ ''_'' @ py_join ''_'' p) (spec_leaf f v))
        (spec_paths sub) fl"
      using "2.IH"(1) [OF VDict, of ?new fl] by simp
    also have "\<dots> =
      fold (\<lambda>(p, v). AList.update (prefix @ ''_'' @ py_join ''_'' p) (spec_leaf f v))
        (map (\<lambda>(p, x). (k # p, x)) (spec_paths sub)) fl"
      unfolding fold_map
      by (rule fold_cong) (auto simp: py_join_Cons dest: spec_paths_nonempty)
    finally show ?thesis
      using VDict "2.prems" by (simp add: rest)
  qed (use "2.prems" in \<open>simp_all add: rest spec_leaf_def\<close>)
qed

lemma flatten_items_top:
  "\<forall>(k, v) \<in> set kvs. is_dict v \<longrightarrow> k \<noteq> [] \<Longrightarrow>
   flatten_items f kvs [] fl =
     fold (\<lambda>(p, v). AList.update (py_join ''_'' p) (spec_leaf f v)) (spec_paths kvs) fl"
proof (induction kvs arbitrary: fl)
  case Nil
  then show ?case by simp
next
  case (Cons kv kvs)
  obtain k v where kv: "kv = (k, v)" by (cases kv) auto
  from Cons.prems have rest:
    "\<And>fl'. flatten_items f kvs [] fl' =
       fold (\<lambda>(p, v). AList.update (py_join ''_'' p) (spec_leaf f v)) (spec_paths kvs) fl'"
    by (intro Cons.IH) auto
  show ?case
  proof (cases v)
    case (VDict sub)
    with Cons.prems kv have k: "k \<noteq> []" by auto
    have "flatten_items f sub k fl =
      fold (\<lambda>(p, v). AList.update (k @ ''_'' @ py_join ''_'' p) (spec_leaf f v))
        (spec_paths sub) fl"
      by (rule flatten_items_prefixed [OF k])
    also have "\<dots> =
      fold (\<lambda>(p, v). AList.update (py_join ''_'' p) (spec_leaf f v))
        (map (\<lambda>(p, x). (k # p, x)) (spec_paths sub)) fl"
      unfolding fold_map
      by (rule fold_cong) (auto simp: py_join_Cons dest: spec_paths_nonempty)
    finally show ?thesis
      using VDict kv by (simp add: rest)
  qed (simp_all add: kv rest spec_leaf_def)
qed

lemma in_set_update:
  "(k', v') \<in> set (AList.update k v al) \<Longrightarrow> (k', v') = (k, v) \<or> (k', v') \<in> set al"
  by (induction al) (auto split: if_splits)

lemma spec_leaf_scalar: "is_scalar (spec_leaf f v)"
  by (cases v) (simp_all add: spec_leaf_def)

lemma fold_update_scalar:
  "\<forall>(k, v) \<in> set fl. is_scalar v \<Longrightarrow>
   \<forall>(k, v) \<in> set (fold (\<lambda>(p, v). AList.update (key p) (spec_leaf f v)) ps fl). is_scalar v"
proof (induction ps arbitrary: fl)
  case Nil
  then show ?case by simp
next
  case (Cons pv ps)
  obtain p v where pv: "pv = (p, v)" by (cases pv) auto
  have "\<forall>(k, w) \<in> set (AList.update (key p) (spec_leaf f v) fl). is_scalar w"
    using Cons.prems spec_leaf_scalar [of f v] by (auto dest!: in_set_update)
  from Cons.IH [OF this] pv show ?case by simp
qed

lemma flatten_spec_scalar: "\<forall>(k, v) \<in> set (flatten_spec f kvs). is_scalar v"
  unfolding flatten_spec_def by (rule fold_update_scalar) simp

lemma rescan_scalar:
  "\<forall>(k, v) \<in> set fl. is_scalar v \<Longrightarrow>
   map (\<lambda>(key, val). (key, if is_scalar val then val else VStr (py_str f val))) fl = fl"
  by (induction fl) auto

lemma flatten_metadata_values_scalar: "\<forall>(k, v) \<in> set (flatten_metadata f md). is_scalar v"
  by (auto simp: flatten_metadata_def Let_def)


subsection \<open>The chunk processor\<close>

lemma emit_chunks_eq:
  "emit_chunks p src md clock i chunks acc =
     acc @ take (max 1 (max_chunks_per_doc p - length acc))
             (map (\<lambda>(j, c). make_chunk src md clock j c)
                (filter (\<lambda>(j, c). 50 \<le> length (py_strip c)) (enumerate i chunks)))"
proof (induction chunks arbitrary: i acc)
  case Nil
  then show ?case by simp
next
  case (Cons c chunks)
  show ?case
  proof (cases "length (py_strip c) < 50")
    case True
    then show ?thesis by (simp add: Cons.IH)
  next
    case False
    show ?thesis
    proof (cases "max_chunks_per_doc p \<le> Suc (length acc)")
      case True
      then have "max 1 (max_chunks_per_doc p - length acc) = 1" by auto
      with False True show ?thesis by (simp add: Let_def)
    next
      case stop: False
      then have "max 1 (max_chunks_per_doc p - length acc)
                 = Suc (max 1 (max_chunks_per_doc p - Suc (length acc)))" by auto
      with False stop show ?thesis by (simp add: Let_def Cons.IH)
    qed
  qed
qed

lemma py_slice_length_window: "length (py_slice xs i (i + int n)) \<le> n"
  by (auto simp: py_slice_def Let_def min_def max_def)

lemma py_slice_length_prefix: "length (py_slice xs 0 j) \<le> length xs"
  by (auto simp: py_slice_def Let_def)

lemma window_length: "window cs t start = Inr (c, e) \<Longrightarrow> length c \<le> cs"
  using py_slice_length_window [of t start cs]
        py_slice_length_prefix [of "py_slice t start (start + int cs)"]
  by (auto simp: window_def Let_def split: if_splits sum.splits intro: order_trans)

lemma chunk_loop_lengths_aux:
  assumes "chunk_loop cs ov t start chunks = Some y"
  shows "(\<forall>c \<in> set chunks. length c \<le> cs) \<longrightarrow>
         (\<forall>r. y = Inr r \<longrightarrow> (\<forall>c \<in> set r. length c \<le> cs))"
proof (rule chunk_loop.raw_induct
    [OF _ assms, where P = "\<lambda>cs ov t start chunks y.
       (\<forall>c \<in> set chunks. length c \<le> cs) \<longrightarrow>
         (\<forall>r. y = Inr r \<longrightarrow> (\<forall>c \<in> set r. length c \<le> cs))"], goal_cases)
  case (1 loop cs ov t start chunks y)
  note IH = "1"(1) and body = "1"(2)
  show ?case
  proof
  assume pre: "\<forall>c \<in> set chunks. length c \<le> cs"
  show "\<forall>r. y = Inr r \<longrightarrow> (\<forall>c \<in> set r. length c \<le> cs)"
  proof (cases "start < int (length t)")
    case False
    with body pre show ?thesis by auto
  next
    case True
    show ?thesis
    proof (cases "window cs t start")
      case (Inl e)
      with True body show ?thesis by auto
    next
      case (Inr ce)
      obtain c e where ce: "ce = (c, e)" by (cases ce) auto
      from window_length [of cs t start c e] Inr ce have c: "length c \<le> cs" by simp
      with pre have all: "\<forall>x \<in> set (chunks @ [c]). length x \<le> cs" by auto
      show ?thesis
      proof (cases "int (length t) \<le> e")
        case stop: True
        with True Inr ce body have "y = Inr (chunks @ [c])" by simp
        with all show ?thesis by simp
      next
        case go: False
        with True Inr ce body
        have "loop cs ov t (e - int ov) (chunks @ [c]) = Some y" by simp
        from IH [OF this] all show ?thesis by blast
      qed
    qed
  qed
  qed
qed

lemma chunk_loop_lengths:
  "chunk_loop cs ov t start chunks = Some (Inr r) \<Longrightarrow>
   \<forall>c \<in> set chunks. length c \<le> cs \<Longrightarrow> \<forall>c \<in> set r. length c \<le> cs"
  using chunk_loop_lengths_aux by blast


lemma rfind_from_range:
  "rfind_from ch s i found = found
   \<or> (i \<le> rfind_from ch s i found \<and> rfind_from ch s i found < i + int (length s))"
proof (induction s arbitrary: i found)
  case Nil
  then show ?case by simp
next
  case (Cons c s)
  from Cons.IH [of "i + 1" "if c = ch then i else found"] show ?case
    by (auto split: if_splits)
qed

lemma py_rfind_less: "py_rfind s ch < int (length s)"
  using rfind_from_range [of ch s 0 "- 1"] by (auto simp: py_rfind_def)

lemma window_sane:
  assumes "0 \<le> start" "0 < cs" "5 * ov \<le> 4 * cs" "start < int (length t)"
  shows "\<exists>c e. window cs t start = Inr (c, e) \<and> start + int ov < e \<and> e \<le> start + int cs"
proof (cases "start + int cs < int (length t)")
  case False
  with assms show ?thesis by (auto simp: window_def Let_def)
next
  case True
  with assms have idx: "py_index t (start + int cs) = Inr (t ! nat (start + int cs))"
    by (simp add: py_index_def Let_def)
  let ?chunk = "py_slice t start (start + int cs)"
  let ?ls = "py_rfind ?chunk (CHR '' '')"
  have "?ls < int (length ?chunk)" by (rule py_rfind_less)
  with py_slice_length_window [of t start cs] have ls: "?ls < int cs" by linarith
  show ?thesis
  proof (cases "\<not> is_space (t ! nat (start + int cs)) \<and> 5 * ?ls > 4 * int cs")
    case snap: True
    with True idx have "window cs t start = Inr (py_slice ?chunk 0 ?ls, start + ?ls)"
      by (simp add: window_def Let_def)
    moreover from snap assms(3) have "int ov < ?ls" by linarith
    ultimately show ?thesis using ls by auto
  next
    case False
    with True idx have "window cs t start = Inr (?chunk, start + int cs)"
      by (auto simp: window_def Let_def)
    with assms show ?thesis by auto
  qed
qed

lemma chunk_loop_total:
  assumes "0 < cs" "5 * ov \<le> 4 * cs"
  shows "0 \<le> start \<Longrightarrow>
         \<exists>r. chunk_loop cs ov t start chunks = Some (Inr r)
            \<and> int (length chunks) * int cs + (int (length t) - start) \<le> int (length r) * int cs
            \<and> length chunks \<le> length r"
proof (induction "nat (int (length t) - start)" arbitrary: start chunks rule: less_induct)
  case less
  show ?case
  proof (cases "start < int (length t)")
    case False
    then show ?thesis by (subst chunk_loop.simps) simp
  next
    case True
    from window_sane [OF less.prems assms True] obtain c e
      where w: "window cs t start = Inr (c, e)" and lo: "start + int ov < e"
        and hi: "e \<le> start + int cs" by blast
    show ?thesis
    proof (cases "int (length t) \<le> e")
      case stop: True
      with True w have "chunk_loop cs ov t start chunks = Some (Inr (chunks @ [c]))"
        by (subst chunk_loop.simps) simp
      moreover from stop hi
      have "int (length chunks) * int cs + (int (length t) - start)
              \<le> int (length (chunks @ [c])) * int cs"
        by (simp add: algebra_simps)
      ultimately show ?thesis by simp
    next
      case go: False
      with True w have step: "chunk_loop cs ov t start chunks
          = chunk_loop cs ov t (e - int ov) (chunks @ [c])"
        by (subst chunk_loop.simps) simp
      from lo go True have m: "nat (int (length t) - (e - int ov)) < nat (int (length t) - start)"
        by linarith
      from lo less.prems have nn: "0 \<le> e - int ov" by linarith
      from less.hyps [OF m nn, of "chunks @ [c]"] obtain r
        where r: "chunk_loop cs ov t (e - int ov) (chunks @ [c]) = Some (Inr r)"
          and cnt: "int (length (chunks @ [c])) * int cs + (int (length t) - (e - int ov))
                      \<le> int (length r) * int cs"
          and len: "length (chunks @ [c]) \<le> length r" by blast
      from cnt hi have "int (length chunks) * int cs + (int (length t) - start)
                      \<le> int (length r) * int cs"
        by (simp add: algebra_simps)
      with r step len show ?thesis by simp
    qed
  qed
qed

lemma chunk_by_characters_lengths:
  "chunk_by_characters p t = Some (Inr r) \<Longrightarrow> \<forall>c \<in> set r. length c \<le> chunk_size p"
  using chunk_loop_lengths [of "chunk_size p" "chunk_overlap p" t 0 "[]" r]
  by (simp add: chunk_by_characters_def)

lemma chunk_by_characters_total:
  "0 < chunk_size p \<Longrightarrow> 5 * chunk_overlap p \<le> 4 * chunk_size p \<Longrightarrow>
   \<exists>r. chunk_by_characters p t = Some (Inr r)
      \<and> int (length t) \<le> int (length r) * int (chunk_size p)"
  using chunk_loop_total [of "chunk_size p" "chunk_overlap p" 0 t "[]"]
  by (auto simp: chunk_by_characters_def)

lemma pack_sentences_lengths:
  "pack_sentences p ss chunks cur = Some (Inr (chunks', cur')) \<Longrightarrow>
   \<forall>c \<in> set chunks. length c \<le> chunk_size p \<Longrightarrow> length cur \<le> chunk_size p \<Longrightarrow>
   (\<forall>c \<in> set chunks'. length c \<le> chunk_size p) \<and> length cur' \<le> chunk_size p"
proof (induction ss arbitrary: chunks cur)
  case Nil
  then show ?case by simp
next
  case (Cons s ss)
  let ?pot = "if cur \<noteq> [] then cur @ '' '' @ s else s"
  let ?chunks1 = "if cur \<noteq> [] then chunks @ [cur] else chunks"
  from Cons.prems have c1: "\<forall>c \<in> set ?chunks1. length c \<le> chunk_size p" by auto
  show ?case
  proof (cases "length ?pot \<le> chunk_size p")
    case True
    with Cons.prems(1) have "pack_sentences p ss chunks ?pot = Some (Inr (chunks', cur'))"
      by (simp add: Let_def)
    from Cons.IH [OF this Cons.prems(2) True] show ?thesis .
  next
    case False
    show ?thesis
    proof (cases "length s > chunk_size p")
      case short: False
      with False Cons.prems(1)
      have "pack_sentences p ss ?chunks1 s = Some (Inr (chunks', cur'))"
        by (simp add: Let_def)
      from Cons.IH [OF this c1] short show ?thesis by simp
    next
      case long: True
      with False Cons.prems(1) obtain cc where
        cc: "chunk_by_characters p s = Some (Inr cc)" and
        rec: "pack_sentences p ss (?chunks1 @ butlast cc) (if cc \<noteq> [] then last cc else [])
               = Some (Inr (chunks', cur'))"
        by (auto simp: Let_def split: option.splits sum.splits if_splits)
      from chunk_by_characters_lengths [OF cc]
      have ccl: "\<forall>c \<in> set cc. length c \<le> chunk_size p" .
      then have a: "\<forall>c \<in> set (?chunks1 @ butlast cc). length c \<le> chunk_size p"
        using c1 by (auto dest: in_set_butlastD)
      from ccl have b: "length (if cc \<noteq> [] then last cc else []) \<le> chunk_size p"
        by auto
      from Cons.IH [OF rec a b] show ?thesis .
    qed
  qed
qed

lemma pack_sentences_total:
  assumes "0 < chunk_size p" "5 * chunk_overlap p \<le> 4 * chunk_size p"
  shows "\<exists>chunks' cur'. pack_sentences p ss chunks cur = Some (Inr (chunks', cur'))"
proof (induction ss arbitrary: chunks cur)
  case Nil
  then show ?case by simp
next
  case (Cons s ss)
  from chunk_by_characters_total [OF assms, of s] obtain cc
    where cc: "chunk_by_characters p s = Some (Inr cc)" by blast
  show ?case
    by (simp add: Let_def cc Cons.IH)
qed

lemma split_dot_space_lengths:
  "\<forall>x \<in> set (split_dot_space s cur). length x \<le> length cur + length s"
proof (induction s cur rule: split_dot_space.induct)
  case (1 cur)
  then show ?case by simp
next
  case (2 c cur)
  then show ?case by simp
next
  case (3 c d rest cur)
  show ?case
  proof (cases "c = CHR ''.'' \<and> d = CHR '' ''")
    case True
    from "3.IH"(1) [OF True] True show ?thesis
      by (auto simp: le_SucI trans_le_add2)
  next
    case False
    from "3.IH"(2) [OF False] False show ?thesis
      by auto
  qed
qed

lemma overlap_text_length:
  assumes "0 < chunk_overlap p"
  shows "length (overlap_text p prev) \<le> chunk_overlap p"
proof -
  let ?tail = "if length prev > chunk_overlap p
               then py_slice prev (- int (chunk_overlap p)) (int (length prev)) else prev"
  have t: "length ?tail \<le> chunk_overlap p"
    using assms by (auto simp: py_slice_def Let_def)
  have "split_dot_space s cur \<noteq> []" for s cur
    by (induction s cur rule: split_dot_space.induct) auto
  then have "last (split_dot_space ?tail []) \<in> set (split_dot_space ?tail [])"
    by simp
  with split_dot_space_lengths [of ?tail "[]"]
  have "length (last (split_dot_space ?tail [])) \<le> length ?tail" by auto
  with t show ?thesis
    by (auto simp: overlap_text_def Let_def)
qed

lemma overlap_from_lengths:
  "0 < chunk_overlap p \<Longrightarrow> \<forall>c \<in> set chunks. length c \<le> chunk_size p \<Longrightarrow>
   \<forall>c \<in> set (overlap_from p prev chunks). length c \<le> chunk_size p + chunk_overlap p + 1"
proof (induction chunks arbitrary: prev)
  case Nil
  then show ?case by simp
next
  case (Cons c chunks)
  from overlap_text_length [OF Cons.prems(1), of prev] Cons.prems(2)
  have "length (overlap_text p prev @ '' '' @ c) \<le> chunk_size p + chunk_overlap p + 1"
    by simp
  moreover from Cons.IH [OF Cons.prems(1), of c] Cons.prems(2)
  have "\<forall>x \<in> set (overlap_from p c chunks). length x \<le> chunk_size p + chunk_overlap p + 1"
    by simp
  ultimately show ?case by simp
qed

lemma add_overlap_lengths:
  assumes "0 < chunk_overlap p" "\<forall>c \<in> set chunks. length c \<le> chunk_size p"
  shows "\<forall>c \<in> set (add_overlap p chunks). length c \<le> chunk_size p + chunk_overlap p + 1"
proof (cases chunks)
  case Nil
  then show ?thesis by (simp add: add_overlap_def)
next
  case (Cons c rest)
  with assms(2) have "length c \<le> chunk_size p + chunk_overlap p + 1"
    and "\<forall>x \<in> set rest. length x \<le> chunk_size p" by auto
  with overlap_from_lengths [OF assms(1), of rest c] assms(2) Cons show ?thesis
    by (auto simp: add_overlap_def)
qed

lemma segment_text_lengths:
  assumes "segment_text p tok t = Some (Inr chunks)" "0 < chunk_overlap p"
  shows "\<forall>c \<in> set chunks. length c \<le> chunk_size p + chunk_overlap p + 1"
proof (cases "preserve_sentences p")
  case False
  with assms(1) have "chunk_by_characters p t = Some (Inr chunks)"
    by (simp add: segment_text_def)
  from chunk_by_characters_lengths [OF this] show ?thesis by auto
next
  case True
  with assms(1) obtain ss chs cur where
    pack: "pack_sentences p ss [] [] = Some (Inr (chs, cur))" and
    chunks: "chunks = add_overlap p (if cur \<noteq> [] then chs @ [cur] else chs)"
    by (auto simp: segment_text_def chunk_by_sentences_def
             split: sum.splits option.splits prod.splits)
  from pack_sentences_lengths [OF pack]
  have "\<forall>c \<in> set (if cur \<noteq> [] then chs @ [cur] else chs). length c \<le> chunk_size p"
    by auto
  from add_overlap_lengths [OF assms(2) this] chunks show ?thesis by simp
qed

lemma segment_text_total:
  assumes "0 < chunk_size p" "5 * chunk_overlap p \<le> 4 * chunk_size p"
  shows "\<exists>r. segment_text p tok t = Some r"
proof (cases "preserve_sentences p")
  case False
  with chunk_by_characters_total [OF assms, of t] show ?thesis
    by (auto simp: segment_text_def)
next
  case True
  have "\<exists>r. chunk_by_sentences p tok t = Some r"
  proof (cases "case tok t of Inl ImportError \<Rightarrow> Inr (simple_sentence_split t)
                  | Inl e \<Rightarrow> Inl e | Inr sentences \<Rightarrow> Inr sentences")
    case (Inl e)
    then show ?thesis by (simp add: chunk_by_sentences_def)
  next
    case (Inr ss)
    from pack_sentences_total [OF assms, of ss "[]" "[]"] obtain chs cur
      where "pack_sentences p ss [] [] = Some (Inr (chs, cur))" by blast
    with Inr show ?thesis by (simp add: chunk_by_sentences_def)
  qed
  with True show ?thesis by (simp add: segment_text_def)
qed

lemma process_document_total:
  assumes "0 < chunk_size p" "5 * chunk_overlap p \<le> 4 * chunk_size p"
  shows "\<exists>out. process_document p tok clock d = Some out"
proof (cases "doc_content d")
  case None
  then show ?thesis by (simp add: process_document_def)
next
  case (Some content_text)
  from segment_text_total [OF assms, of tok "chunk_clean_text content_text"] obtain r
    where "segment_text p tok (chunk_clean_text content_text) = Some r" by blast
  with Some show ?thesis
    by (cases r) (simp_all add: process_document_def)
qed

lemma process_document_eq:
  assumes "doc_content d = Some content_text" "content_text \<noteq> []" "py_strip content_text \<noteq> []"
    and "segment_text p tok (chunk_clean_text content_text) = Some (Inr chunks)"
  shows "process_document p tok clock d =
     Some (take (max 1 (max_chunks_per_doc p))
             (map (\<lambda>(j, c). make_chunk (case doc_source d of None \<Rightarrow> ''unknown'' | Some s \<Rightarrow> s)
                                (case doc_metadata d of None \<Rightarrow> VDict [] | Some m \<Rightarrow> m) clock j c)
                (filter (\<lambda>(j, c). 50 \<le> length (py_strip c)) (enumerate 0 chunks))))"
  using assms by (simp add: process_document_def emit_chunks_eq)

lemma process_document_cases:
  assumes "process_document p tok clock d = Some out"
  shows "out = [] \<or>
    (\<exists>chunks src md. segment_text p tok (chunk_clean_text (the (doc_content d))) = Some (Inr chunks)
       \<and> out = take (max 1 (max_chunks_per_doc p))
             (map (\<lambda>(j, c). make_chunk src md clock j c)
                (filter (\<lambda>(j, c). 50 \<le> length (py_strip c)) (enumerate 0 chunks))))"
  using assms
  by (auto simp: process_document_def emit_chunks_eq
           split: option.splits if_splits sum.splits)

lemma py_strip_length: "length (py_strip s) \<le> length s"
proof -
  have "length (dropWhile is_space (rev (dropWhile is_space s))) \<le> length (dropWhile is_space s)"
    using length_dropWhile_le [of is_space "rev (dropWhile is_space s)"] by simp
  also have "\<dots> \<le> length s" by (rule length_dropWhile_le)
  finally show ?thesis by (simp add: py_strip_def)
qed

subsection \<open>The example documents\<close>

lemma is_space_simps:
  "is_space (CHR '' '')" "\<not> is_space (CHR ''.'')"
  by (simp_all add: is_space_def)

lemma clean_three:
  "chunk_clean_text
     ''Vector stores keep chunks for retrievals. Chunks overlap by a few chars. Queries are matched by vectors.''
   = ''Vector stores keep chunks for retrievals. Chunks overlap by a few chars. Queries are matched by vectors.''"
  by (simp add: chunk_clean_text_def py_split_def py_strip_def is_space_def is_word_char_def)

lemma split_three:
  "simple_sentence_split
     ''Vector stores keep chunks for retrievals. Chunks overlap by a few chars. Queries are matched by vectors.''
   = [''Vector stores keep chunks for retrievals'', ''Chunks overlap by a few chars'',
      ''Queries are matched by vectors'']"
  by (simp add: simple_sentence_split_def py_strip_def is_space_def)

lemma small_processor_fields:
  "chunk_size small_processor = 60" "chunk_overlap small_processor = 10"
  "preserve_sentences small_processor" "max_chunks_per_doc small_processor = 100"
  by (simp_all add: small_processor_def ChunkProcessor_def RAGConfig_def)

lemma segment_three:
  "segment_text small_processor no_nltk
     ''Vector stores keep chunks for retrievals. Chunks overlap by a few chars. Queries are matched by vectors.''
   = Some (Inr [''Vector stores keep chunks for retrievals'',
                ''retrievals Chunks overlap by a few chars Queries are matched by vectors''])"
  by (simp add: segment_text_def chunk_by_sentences_def no_nltk_def split_three
        small_processor_fields add_overlap_def overlap_text_def py_slice_def)

lemma process_three:
  "process_document small_processor no_nltk clock three_sentences =
     Some [make_chunk ''a.txt'' (VDict []) clock 1
             ''retrievals Chunks overlap by a few chars Queries are matched by vectors'']"
  by (simp add: process_document_def three_sentences_def clean_three segment_three
        py_strip_def is_space_def small_processor_fields)

lemma chunk_three:
  "make_chunk ''a.txt'' (VDict []) clock 1
     ''retrievals Chunks overlap by a few chars Queries are matched by vectors'' =
   \<lparr>chunk_content = Some ''retrievals Chunks overlap by a few chars Queries are matched by vectors'',
    chunk_metadata = Some
      [(''chunk_id'', VStr ''a.txt_chunk_1''),
       (''chunk_index'', VInt 1),
       (''source_document'', VStr ''a.txt''),
       (''source_metadata'', VDict []),
       (''chunk_size'', VInt 71),
       (''word_count'', VInt 12),
       (''created_at'', VStr (clock 1))]\<rparr>"
  by (simp add: make_chunk_def py_strip_def py_split_def is_space_def str_nat.simps)

lemma collapse_whitespace_id: "\<forall>c \<in> set t. \<not> is_space c \<Longrightarrow> collapse_whitespace t = t"
  by (induction t) auto

lemma split_ws_word:
  "\<forall>c \<in> set t. \<not> is_space c \<Longrightarrow> cur @ t \<noteq> [] \<Longrightarrow> split_ws t cur = [cur @ t]"
  by (induction t arbitrary: cur) auto

lemma dropWhile_none: "\<forall>c \<in> set t. \<not> P c \<Longrightarrow> dropWhile P t = t"
  by (cases t) auto

lemma py_strip_word: "\<forall>c \<in> set t. \<not> is_space c \<Longrightarrow> py_strip t = t"
  by (simp add: py_strip_def dropWhile_none)

lemma chunk_clean_text_word:
  assumes "\<forall>c \<in> set t. is_word_char c \<and> \<not> is_space c"
  shows "chunk_clean_text t = t"
proof (cases "t = []")
  case True
  then show ?thesis by (simp add: chunk_clean_text_def)
next
  case False
  from assms have ns: "\<forall>c \<in> set t. \<not> is_space c" by blast
  have m: "map (\<lambda>c. if is_word_char c \<or> is_space c \<or> c \<in> set ''.,!?;:()-\"'' then c
                 else CHR '' '') t = t"
    using assms by (intro map_idI) auto
  from split_ws_word [OF ns, of "[]"] False have sp: "py_split t = [t]"
    by (simp add: py_split_def)
  show ?thesis
    using False
    by (simp only: chunk_clean_text_def Let_def collapse_whitespace_id [OF ns] m sp
          py_join.simps py_strip_word [OF ns] if_False)
qed

lemma char_processor_fields:
  "chunk_size char_processor = 40" "chunk_overlap char_processor = 10"
  "\<not> preserve_sentences char_processor" "max_chunks_per_doc char_processor = 100"
  by (simp_all add: char_processor_def ChunkProcessor_def RAGConfig_def)

lemma long_word_clean:
  "chunk_clean_text (replicate 5000 (CHR ''a'')) = replicate 5000 (CHR ''a'')"
  by (rule chunk_clean_text_word) (simp add: is_word_char_def is_space_def)

lemma long_word_segments:
  "\<exists>chunks. segment_text char_processor no_nltk (replicate 5000 (CHR ''a'')) = Some (Inr chunks)
      \<and> 100 < length chunks \<and> (\<forall>c \<in> set chunks. length c \<le> 40)"
proof -
  from chunk_by_characters_total [of char_processor "replicate 5000 (CHR ''a'')"]
  obtain r where r: "chunk_by_characters char_processor (replicate 5000 (CHR ''a'')) = Some (Inr r)"
    and n: "int (length (replicate 5000 (CHR ''a''))) \<le> int (length r) * int (chunk_size char_processor)"
    by (auto simp: char_processor_fields)
  from n have "100 < length r"
    by (simp add: char_processor_fields)
  moreover from chunk_by_characters_lengths [OF r] have "\<forall>c \<in> set r. length c \<le> 40"
    by (simp add: char_processor_fields)
  ultimately show ?thesis
    using r by (simp add: segment_text_def char_processor_fields)
qed

lemma filter_enumerate_none:
  "\<forall>c \<in> set chunks. \<not> P c \<Longrightarrow> filter (\<lambda>(j, c). P c) (enumerate i chunks) = []"
  by (induction chunks arbitrary: i) auto

lemma long_word_emits_nothing:
  "process_document char_processor no_nltk clock long_word = Some []"
proof -
  from long_word_segments obtain chunks where
    seg: "segment_text char_processor no_nltk (replicate 5000 (CHR ''a'')) = Some (Inr chunks)"
    and small: "\<forall>c \<in> set chunks. length c \<le> 40" by blast
  have "\<forall>c \<in> set chunks. \<not> 50 \<le> length (py_strip c)"
  proof
    fix c assume "c \<in> set chunks"
    with small have "length c \<le> 40" by blast
    with py_strip_length [of c] show "\<not> 50 \<le> length (py_strip c)" by linarith
  qed
  from filter_enumerate_none [of chunks "\<lambda>c. 50 \<le> length (py_strip c)" 0, OF this]
  have none: "filter (\<lambda>(j, c). 50 \<le> length (py_strip c)) (enumerate 0 chunks) = []" .
  have nonblank: "replicate 5000 (CHR ''a'') \<noteq> []" "py_strip (replicate 5000 (CHR ''a'')) \<noteq> []"
    by (simp_all add: py_strip_word is_space_def)
  have "doc_content long_word = Some (replicate 5000 (CHR ''a''))"
    by (simp add: long_word_def)
  from process_document_eq [OF this nonblank, of char_processor no_nltk chunks clock] seg
  show ?thesis
    by (simp add: long_word_clean none)
qed

lemma enumerate_index_map:
  "enumerate 0 xs = map (\<lambda>i. (i, xs ! i)) [0 ..< length xs]"
  by (rule nth_equalityI) (simp_all add: nth_enumerate_eq)

lemma filter_enumerate_indices:
  "filter (\<lambda>(j, c). P c) (enumerate 0 xs) =
     map (\<lambda>i. (i, xs ! i)) (filter (\<lambda>i. P (xs ! i)) [0 ..< length xs])"
  by (simp add: enumerate_index_map filter_map comp_def)

lemma length_filter_enumerate:
  "length (filter (\<lambda>(j, c). P c) (enumerate i xs)) = length (filter P xs)"
  by (induction xs arbitrary: i) auto

lemma capped_processor_fields:
  "chunk_size capped_processor = 60" "chunk_overlap capped_processor = 10"
  "preserve_sentences capped_processor" "max_chunks_per_doc capped_processor = 1"
  by (simp_all add: capped_processor_def ChunkProcessor_def RAGConfig_def)

lemma clean_two:
  "chunk_clean_text
     ''The retriever ranks each stored chunk by its similarity. Chunks that score below the threshold are never returned.''
   = ''The retriever ranks each stored chunk by its similarity. Chunks that score below the threshold are never returned.''"
  by (simp add: chunk_clean_text_def py_split_def py_strip_def is_space_def is_word_char_def)

lemma split_two:
  "simple_sentence_split
     ''The retriever ranks each stored chunk by its similarity. Chunks that score below the threshold are never returned.''
   = [''The retriever ranks each stored chunk by its similarity'',
      ''Chunks that score below the threshold are never returned'']"
  by (simp add: simple_sentence_split_def py_strip_def is_space_def)

lemma segment_two:
  "segment_text capped_processor no_nltk
     ''The retriever ranks each stored chunk by its similarity. Chunks that score below the threshold are never returned.''
   = Some (Inr [''The retriever ranks each stored chunk by its similarity'',
                ''similarity Chunks that score below the threshold are never returned''])"
  by (simp add: segment_text_def chunk_by_sentences_def no_nltk_def split_two
        capped_processor_fields add_overlap_def overlap_text_def py_slice_def)

lemma survivors_two:
  "filter (\<lambda>c. 50 \<le> length (py_strip c))
     [''The retriever ranks each stored chunk by its similarity'',
      ''similarity Chunks that score below the threshold are never returned'']
   = [''The retriever ranks each stored chunk by its similarity'',
      ''similarity Chunks that score below the threshold are never returned'']"
  by (simp add: py_strip_def is_space_def)

lemma flatten_items_general:
  "flatten_items f kvs prefix fl =
     fold (\<lambda>(p, v). AList.update
             (foldl (\<lambda>pre key. if pre \<noteq> [] then pre @ ''_'' @ key else key) prefix p)
             (spec_leaf f v))
       (spec_paths kvs) fl"
proof (induction kvs arbitrary: prefix fl rule: spec_paths.induct)
  case 1
  then show ?case by simp
next
  case (2 k v rest)
  let ?join = "\<lambda>pre key. if pre \<noteq> [] then pre @ ''_'' @ key else key"
  let ?new = "?join prefix k"
  have rest: "\<And>fl'. flatten_items f rest prefix fl' =
     fold (\<lambda>(p, v). AList.update (foldl ?join prefix p) (spec_leaf f v)) (spec_paths rest) fl'"
    using "2.IH"(2) by simp
  show ?case
  proof (cases v)
    case (VDict sub)
    have "flatten_items f sub ?new fl =
      fold (\<lambda>(p, v). AList.update (foldl ?join ?new p) (spec_leaf f v)) (spec_paths sub) fl"
      using "2.IH"(1) [OF VDict, of ?new fl] by simp
    also have "\<dots> =
      fold (\<lambda>(p, v). AList.update (foldl ?join prefix p) (spec_leaf f v))
        (map (\<lambda>(p, x). (k # p, x)) (spec_paths sub)) fl"
      unfolding fold_map
      by (rule fold_cong) auto
    finally show ?thesis
      using VDict by (simp add: rest)
  qed (simp_all add: rest spec_leaf_def)
qed

lemma foldl_join_nonempty:
  "pre \<noteq> [] \<Longrightarrow>
   foldl (\<lambda>pre key. if pre \<noteq> [] then pre @ ''_'' @ key else key) pre p = py_join ''_'' (pre # p)"
proof (induction p arbitrary: pre)
  case Nil
  then show ?case by simp
next
  case (Cons k p)
  have "pre @ ''_'' @ k \<noteq> []" using Cons.prems by simp
  from Cons.IH [OF this] Cons.prems show ?case
    by (cases p) simp_all
qed

lemma foldl_join_keys:
  "foldl (\<lambda>pre key. if pre \<noteq> [] then pre @ ''_'' @ key else key) [] p
     = py_join ''_'' (dropWhile (\<lambda>k. k = []) p)"
proof (induction p)
  case Nil
  then show ?case by simp
next
  case (Cons k p)
  show ?case
  proof (cases "k = []")
    case True
    with Cons.IH show ?thesis by simp
  next
    case False
    with foldl_join_nonempty [of k p] show ?thesis by simp
  qed
qed

lemma flatten_metadata_general:
  "flatten_metadata f (VDict kvs) =
     fold (\<lambda>(p, v). AList.update (py_join ''_'' (dropWhile (\<lambda>k. k = []) p)) (spec_leaf f v))
       (spec_paths kvs) []"
proof -
  have "flatten_recursive f (VDict kvs) [] [] =
     fold (\<lambda>(p, v). AList.update (py_join ''_'' (dropWhile (\<lambda>k. k = []) p)) (spec_leaf f v))
       (spec_paths kvs) []"
    by (simp add: flatten_items_general foldl_join_keys)
  moreover have "\<forall>(k, v) \<in> set (fold (\<lambda>(p, v). AList.update
        (py_join ''_'' (dropWhile (\<lambda>k. k = []) p)) (spec_leaf f v)) (spec_paths kvs) []). is_scalar v"
    by (rule fold_update_scalar) simp
  ultimately show ?thesis
    by (simp add: flatten_metadata_def rescan_scalar)
qed


section \<open>Claims\<close>

text \<open>
  C9. \<^verbatim>\<open>EmbeddingModel.clean_text\<close> removes every whitespace character: its result is
  the concatenation, with no separator, of the whitespace-separated tokens of the input.
  \<^verbatim>\<open>encode_text\<close> applies it to every text before it calls the encoder, so an input that
  holds a whitespace character reaches the encoder changed; \<^verbatim>\<open>"hello world"\<close> is
  encoded as \<^verbatim>\<open>"helloworld"\<close>.
\<close>

theorem clean_text_removes_all_whitespace:
  "clean_text t = concat (py_split t)
   \<and> clean_text t = filter (\<lambda>c. \<not> is_space c) t
   \<and> ((\<exists>c \<in> set t. is_space c) \<longrightarrow> clean_text t \<noteq> t)
   \<and> encode_text (m\<lparr>model := Some enc\<rparr>) (Many ts) = enc (map clean_text ts)
   \<and> encode_text (m\<lparr>model := Some enc\<rparr>) (One t) = enc [clean_text t]
   \<and> clean_text ''hello world'' = ''helloworld''"
proof (intro conjI impI)
  show "clean_text t = concat (py_split t)"
    by (rule clean_text_split)
  show "clean_text t = filter (\<lambda>c. \<not> is_space c) t"
    by (rule clean_text_filter)
  show "clean_text t \<noteq> t" if "\<exists>c \<in> set t. is_space c"
  proof
    assume eq: "clean_text t = t"
    from that obtain c where c: "c \<in> set t" "is_space c" by blast
    from c(1) have "c \<in> set (clean_text t)"
      by (simp only: eq)
    then have "c \<in> set (filter (\<lambda>c. \<not> is_space c) t)"
      by (simp only: clean_text_filter)
    then have "\<not> is_space c"
      by simp
    with c(2) show False by simp
  qed
  show "encode_text (m\<lparr>model := Some enc\<rparr>) (Many ts) = enc (map clean_text ts)"
    by (simp add: encode_text_def)
  show "encode_text (m\<lparr>model := Some enc\<rparr>) (One t) = enc [clean_text t]"
    by (simp add: encode_text_def)
  show "clean_text ''hello world'' = ''helloworld''"
    by (simp add: clean_text_filter is_space_def)
qed

theorem clean_text_removes_all_whitespace_witness:
  "(\<exists>c \<in> set ''a b''. is_space c) \<and> clean_text ''a b'' = ''ab'' \<and> clean_text ''a b'' \<noteq> ''a b''"
proof -
  have h: "\<exists>c \<in> set ''a b''. is_space c"
    by (simp add: is_space_def)
  have "(\<exists>c \<in> set ''a b''. is_space c) \<longrightarrow> clean_text ''a b'' \<noteq> ''a b''"
    by (rule clean_text_removes_all_whitespace
          [of "''a b''", THEN conjunct2, THEN conjunct2, THEN conjunct1])
  with h have "clean_text ''a b'' \<noteq> ''a b''"
    by (rule_tac mp)
  moreover have "clean_text ''a b'' = ''ab''"
    by (simp add: clean_text_filter is_space_def)
  ultimately show ?thesis
    using h by simp
qed

text \<open>
  C1. \<^verbatim>\<open>search_similar\<close> computes \<^verbatim>\<open>1 / (1 + distance)\<close> in double precision: every hit it
  returns has as similarity the rounded quotient of \<open>1\<close> by the rounded sum, a similarity
  at or above the threshold and a sum other than zero. Among the hits a distance (above
  \<open>-1\<close>) that is no larger means a similarity that is no smaller. When the query succeeds
  and no sum \<^verbatim>\<open>1 + distance\<close> is zero, the result is exactly the entries of
  \<^verbatim>\<open>zip(documents, metadatas, distances)\<close> whose similarity is at least the threshold, in
  order: an entry below the threshold is left out and every other entry is kept.
  Distance \<open>0\<close> gives similarity \<open>1\<close>, and the similarity never increases with the
  distance above \<open>-1\<close>.
\<close>

theorem search_similar_similarity_threshold:
  "(\<forall>h \<in> set (search_similar db store qe k thr).
      similarity_score h = float_div 1 (float_add 1 (distance h))
      \<and> thr \<le> similarity_score h \<and> float_add 1 (distance h) \<noteq> 0)
   \<and> (\<forall>h1 \<in> set (search_similar db store qe k thr).
       \<forall>h2 \<in> set (search_similar db store qe k thr).
         - 1 < distance h1 \<and> distance h1 \<le> distance h2
           \<longrightarrow> similarity_score h2 \<le> similarity_score h1)
   \<and> (collection store = Some c \<and> coll_query db c qe k = Inr results
        \<and> qr_documents results = Some (documents # ds)
        \<and> qr_metadatas results = Some (metadatas # ms)
        \<and> qr_distances results = Some (distances # dss)
        \<and> (\<forall>d \<in> set distances. float_add 1 d \<noteq> 0)
      \<longrightarrow> search_similar db store qe k thr =
            map (\<lambda>(doc, md, d). \<lparr>document = doc, metadata = md,
                                  similarity_score = float_div 1 (float_add 1 d), distance = d\<rparr>)
              (filter (\<lambda>(doc, md, d). thr \<le> float_div 1 (float_add 1 d))
                 (zip documents (zip metadatas distances))))
   \<and> collect_similar thr [(doc, md, 0)] [] =
        Inr (if thr \<le> 1 then [\<lparr>document = doc, metadata = md,
                                 similarity_score = 1, distance = 0\<rparr>] else [])
   \<and> (\<forall>d1 d2 :: real. - 1 < d1 \<and> d1 \<le> d2 \<and> float_add 1 d1 \<noteq> 0
         \<longrightarrow> float_div 1 (float_add 1 d2) \<le> float_div 1 (float_add 1 d1))"
proof (intro conjI ballI allI impI)
  fix h assume "h \<in> set (search_similar db store qe k thr)"
  then show "similarity_score h = float_div 1 (float_add 1 (distance h))"
    and "thr \<le> similarity_score h" and "float_add 1 (distance h) \<noteq> 0"
    using search_similar_hits by blast+
next
  fix d1 d2 :: real
  assume "- 1 < d1 \<and> d1 \<le> d2 \<and> float_add 1 d1 \<noteq> 0"
  then show "float_div 1 (float_add 1 d2) \<le> float_div 1 (float_add 1 d1)"
    by (simp add: similarity_antimono)
next
  fix h1 h2
  assume h1: "h1 \<in> set (search_similar db store qe k thr)"
     and h2: "h2 \<in> set (search_similar db store qe k thr)"
     and le: "- 1 < distance h1 \<and> distance h1 \<le> distance h2"
  from h1 have s1: "similarity_score h1 = float_div 1 (float_add 1 (distance h1))"
    and nz: "float_add 1 (distance h1) \<noteq> 0"
    using search_similar_hits by blast+
  from h2 have s2: "similarity_score h2 = float_div 1 (float_add 1 (distance h2))"
    using search_similar_hits by blast
  from le nz
  have "float_div 1 (float_add 1 (distance h2)) \<le> float_div 1 (float_add 1 (distance h1))"
    by (simp add: similarity_antimono)
  with s1 s2 show "similarity_score h2 \<le> similarity_score h1"
    by simp
next
  show "collect_similar thr [(doc, md, 0)] [] =
        Inr (if thr \<le> 1 then [\<lparr>document = doc, metadata = md,
                                 similarity_score = 1, distance = 0\<rparr>] else [])"
    by (simp add: float_add_1_0 float_div_1_1)
next
  assume a: "collection store = Some c \<and> coll_query db c qe k = Inr results
        \<and> qr_documents results = Some (documents # ds)
        \<and> qr_metadatas results = Some (metadatas # ms)
        \<and> qr_distances results = Some (distances # dss)
        \<and> (\<forall>d \<in> set distances. float_add 1 d \<noteq> 0)"
  let ?zs = "zip documents (zip metadatas distances)"
  from a have "\<forall>z \<in> set ?zs. float_add 1 (snd (snd z)) \<noteq> 0"
    by (auto dest!: set_zip_rightD)
  from collect_similar_complete [OF this] obtain out
    where out: "collect_similar thr ?zs [] = Inr out" by blast
  from a out have "search_similar db store qe k thr = out"
    by (auto simp: search_similar_def search_similar_body_def)
  with collect_similar_sound [OF out]
  show "search_similar db store qe k thr =
            map (\<lambda>(doc, md, d). \<lparr>document = doc, metadata = md,
                                  similarity_score = float_div 1 (float_add 1 d), distance = d\<rparr>)
              (filter (\<lambda>(doc, md, d). thr \<le> float_div 1 (float_add 1 d)) ?zs)"
    by simp
qed

text \<open>
  C1, the counterexample to the similarity being strictly decreasing and to the
  threshold test being the one on the exact quotient. The distances \<open>0\<close> and
  \<^verbatim>\<open>2 ** -60\<close> are different doubles, and \<^verbatim>\<open>1 + 2 ** -60\<close> rounds to \<open>1\<close>: both entries
  get similarity \<open>1\<close>, and at threshold \<open>1\<close> the second entry is kept although the exact
  quotient is below \<open>1\<close>.
\<close>

theorem search_similar_not_strictly_decreasing:
  "search_similar memory_chroma close_entries [0] 5 1 =
     [\<lparr>document = ''here'', metadata = [], similarity_score = 1, distance = 0\<rparr>,
      \<lparr>document = ''close'', metadata = [], similarity_score = 1, distance = 1 / 2 ^ 60\<rparr>]
   \<and> (0 :: real) < 1 / 2 ^ 60
   \<and> (1 :: real) / (1 + 1 / 2 ^ 60) < 1"
proof (intro conjI)
  show "search_similar memory_chroma close_entries [0] 5 1 =
     [\<lparr>document = ''here'', metadata = [], similarity_score = 1, distance = 0\<rparr>,
      \<lparr>document = ''close'', metadata = [], similarity_score = 1, distance = 1 / 2 ^ 60\<rparr>]"
    using float_add_1_tiny float_add_1_0 float_div_1_1
    by (simp add: search_similar_def search_similar_body_def close_entries_def
          memory_chroma_def l2_def Let_def power_divide)
qed simp_all

theorem search_similar_similarity_threshold_witness:
  "search_similar memory_chroma two_entries [4] 5 (1 / 2) =
     [\<lparr>document = ''near'', metadata = [(''n'', VInt 1)], similarity_score = 1, distance = 0\<rparr>]"
proof -
  have far: "float_div 1 (float_add 1 9) \<le> 1 / 8" "float_add 1 9 \<noteq> 0"
    using float_div_1_large [OF float_add_1_9] float_add_1_9 by simp_all
  have "collection two_entries =
          Some [(''doc_0'', ''far'', [7], [(''n'', VInt 0)]),
                (''doc_1'', ''near'', [4], [(''n'', VInt 1)])]
        \<and> coll_query memory_chroma
             [(''doc_0'', ''far'', [7], [(''n'', VInt 0)]),
              (''doc_1'', ''near'', [4], [(''n'', VInt 1)])] [4] 5 =
           Inr \<lparr>qr_documents = Some [[''near'', ''far'']],
                qr_metadatas = Some [[[(''n'', VInt 1)], [(''n'', VInt 0)]]],
                qr_distances = Some [[0, 9]]\<rparr>
        \<and> qr_documents \<lparr>qr_documents = Some [[''near'', ''far'']],
                qr_metadatas = Some [[[(''n'', VInt 1)], [(''n'', VInt 0)]]],
                qr_distances = Some [[0, 9]]\<rparr> = Some ([''near'', ''far''] # [])
        \<and> qr_metadatas \<lparr>qr_documents = Some [[''near'', ''far'']],
                qr_metadatas = Some [[[(''n'', VInt 1)], [(''n'', VInt 0)]]],
                qr_distances = Some [[0, 9]]\<rparr> = Some ([[(''n'', VInt 1)], [(''n'', VInt 0)]] # [])
        \<and> qr_distances \<lparr>qr_documents = Some [[''near'', ''far'']],
                qr_metadatas = Some [[[(''n'', VInt 1)], [(''n'', VInt 0)]]],
                qr_distances = Some [[0, 9]]\<rparr> = Some ([0, 9] # [])
        \<and> (\<forall>d \<in> set [0, 9 :: real]. float_add 1 d \<noteq> 0)"
    using far by (simp add: two_entries_def memory_query_two_entries float_add_1_0)
  then have "search_similar memory_chroma two_entries [4] 5 (1 / 2) =
            map (\<lambda>(doc, md, d). \<lparr>document = doc, metadata = md,
                                  similarity_score = float_div 1 (float_add 1 d), distance = d\<rparr>)
              (filter (\<lambda>(doc, md, d). 1 / 2 \<le> float_div 1 (float_add 1 d))
                 (zip [''near'', ''far''] (zip [[(''n'', VInt 1)], [(''n'', VInt 0)]] [0, 9])))"
    by (rule search_similar_similarity_threshold
          [THEN conjunct2, THEN conjunct2, THEN conjunct1, THEN mp])
  then show ?thesis
    using far by (simp add: float_add_1_0 float_div_1_1)
qed

text \<open>
  C7. On a store whose collection is unset, each of \<^verbatim>\<open>add_documents\<close>,
  \<^verbatim>\<open>search_similar\<close>, \<^verbatim>\<open>delete_document\<close> and \<^verbatim>\<open>clear_collection\<close> raises
  \<^verbatim>\<open>RuntimeError("Vector store not initialized")\<close> inside its \<^verbatim>\<open>try\<close> block and catches
  it: add, delete and clear return \<^verbatim>\<open>False\<close>, search returns the empty list, and the
  store is left as it was. No error reaches the caller.
\<close>

theorem uninitialized_store_operations:
  "collection store = None \<Longrightarrow>
     add_documents_body f db store documents embeddings metadata_list ids_opt
       = Inl (RuntimeError ''Vector store not initialized'')
   \<and> search_similar_body db store qe k thr = Inl (RuntimeError ''Vector store not initialized'')
   \<and> delete_document_body db store ids = Inl (RuntimeError ''Vector store not initialized'')
   \<and> clear_collection_body db store = Inl (RuntimeError ''Vector store not initialized'', store)
   \<and> add_documents f db store documents embeddings metadata_list ids_opt = (False, store)
   \<and> search_similar db store qe k thr = []
   \<and> delete_document db store ids = (False, store)
   \<and> clear_collection db store = (False, store)"
  by (simp add: add_documents_body_def search_similar_body_def delete_document_body_def
        clear_collection_body_def add_documents_def search_similar_def delete_document_def
        clear_collection_def)

theorem uninitialized_store_operations_witness:
  "collection uninitialized_store = None
   \<and> add_documents plain_formats memory_chroma uninitialized_store [''a''] [[1]] [VDict []] None
       = (False, uninitialized_store)
   \<and> search_similar memory_chroma uninitialized_store [1] 5 (1 / 2) = []
   \<and> delete_document memory_chroma uninitialized_store [''doc_0''] = (False, uninitialized_store)
   \<and> clear_collection memory_chroma uninitialized_store = (False, uninitialized_store)"
proof -
  have h: "collection uninitialized_store = None"
    by (simp add: uninitialized_store_def)
  from uninitialized_store_operations [OF h, of plain_formats memory_chroma "[''a'']" "[[1]]"
      "[VDict []]" None "[1]" 5 "1 / 2" "[''doc_0'']"] h
  show ?thesis by simp
qed

text \<open>
  C7 as stated fails for search: on an uninitialized store \<^verbatim>\<open>search_similar\<close> returns the
  empty list, which is also what a ready store with an empty collection returns, so the
  call signals no failure.
\<close>

theorem uninitialized_search_signals_nothing:
  "search_similar memory_chroma uninitialized_store [1] 5 (1 / 2)
     = search_similar memory_chroma empty_store [1] 5 (1 / 2)
   \<and> search_similar memory_chroma uninitialized_store [1] 5 (1 / 2) = []"
  by (simp add: search_similar_def search_similar_body_def uninitialized_store_def
        empty_store_def memory_chroma_def)


text \<open>
  C6. \<^verbatim>\<open>retrieve\<close> returns the empty list for an empty or whitespace-only query, and for
  any query when the retriever is not ready; \<^verbatim>\<open>index_chunks\<close> on a retriever that is not
  ready returns \<^verbatim>\<open>False\<close> and leaves the retriever as it was. \<^verbatim>\<open>retrieve\<close> never raises:
  every call returns a list.
\<close>

theorem retrieve_and_index_fail_soft:
  "((query = [] \<or> py_strip query = []) \<longrightarrow> retrieve cfg db r query tk th flt = Inr [])
   \<and> (\<not> is_ready r \<longrightarrow>
        retrieve cfg db r query tk th flt = Inr [] \<and> index_chunks f db r chunks = (False, r))
   \<and> (\<exists>res. retrieve cfg db r query tk th flt = Inr res)"
  using retrieve_never_raises [of cfg db r query tk th flt]
  by (simp add: retrieve_def index_chunks_def)

theorem retrieve_and_index_fail_soft_witness:
  "py_strip ''   '' = []
   \<and> retrieve (RAGConfig ''docs'' ''length'') memory_chroma ready_retriever ''   '' None None None = Inr []
   \<and> \<not> is_ready unready_retriever
   \<and> retrieve (RAGConfig ''docs'' ''length'') memory_chroma unready_retriever ''near'' None None None = Inr []
   \<and> index_chunks plain_formats memory_chroma unready_retriever
        [\<lparr>chunk_content = Some ''near'', chunk_metadata = None\<rparr>] = (False, unready_retriever)"
proof -
  have blank: "py_strip ''   '' = []"
    by (simp add: py_strip_def is_space_def)
  have unready: "\<not> is_ready unready_retriever"
    by (simp add: unready_retriever_def)
  note thm1 = retrieve_and_index_fail_soft
    [of "''   ''" "RAGConfig ''docs'' ''length''" memory_chroma ready_retriever None None None]
  note thm2 = retrieve_and_index_fail_soft
    [of "''near''" "RAGConfig ''docs'' ''length''" memory_chroma unready_retriever None None None
        plain_formats "[\<lparr>chunk_content = Some ''near'', chunk_metadata = None\<rparr>]"]
  from thm1 blank
  have "retrieve (RAGConfig ''docs'' ''length'') memory_chroma ready_retriever ''   '' None None None = Inr []"
    by blast
  moreover from thm2 unready
  have "retrieve (RAGConfig ''docs'' ''length'') memory_chroma unready_retriever ''near'' None None None = Inr []
      \<and> index_chunks plain_formats memory_chroma unready_retriever
        [\<lparr>chunk_content = Some ''near'', chunk_metadata = None\<rparr>] = (False, unready_retriever)"
    by blast
  ultimately show ?thesis
    using blank unready by blast
qed

text \<open>
  C10. In \<^verbatim>\<open>retrieve\<close> an explicit \<^verbatim>\<open>top_k = 0\<close> or \<^verbatim>\<open>similarity_threshold = 0.0\<close> is
  treated as if the argument had been left out: the call gives the same result, and the
  vector store is searched with the configured \<^verbatim>\<open>default_top_k\<close> and
  \<^verbatim>\<open>similarity_threshold\<close>.
\<close>

theorem retrieve_zero_means_default:
  "retrieve cfg db r query (Some 0) th flt = retrieve cfg db r query None th flt
   \<and> retrieve cfg db r query tk (Some 0) flt = retrieve cfg db r query tk None flt
   \<and> (is_ready r \<and> query \<noteq> [] \<and> py_strip query \<noteq> []
        \<and> embedding_model r = Some em \<and> vector_store r = Some store
        \<and> encode_query (cfg_max_query_length cfg) em
             (if length (clean_query query) > max_query_length r
              then take (max_query_length r) (clean_query query) else clean_query query)
            = Inr qe
      \<longrightarrow> retrieve cfg db r query (Some 0) (Some 0) flt =
            Inr (process_search_results
                   (search_similar db store qe (default_top_k r) (similarity_threshold r))
                   query flt))"
  by (simp add: retrieve_def retrieve_body_def Let_def)

theorem retrieve_zero_means_default_witness:
  "retrieve (RAGConfig ''docs'' ''length'') memory_chroma ready_retriever ''near'' (Some 0) (Some 0) None =
     Inr [\<lparr>content = ''near'', result_metadata = [(''n'', VInt 1)],
           result_similarity_score = 1, result_distance = 0, relevance_rank = 1,
           query_match_info = \<lparr>exact_word_matches = 1, total_query_words = 1,
                                match_percentage = 1, matched_words = [''near'']\<rparr>\<rparr>]"
proof -
  have "is_ready ready_retriever \<and> ''near'' \<noteq> [] \<and> py_strip ''near'' \<noteq> []
        \<and> embedding_model ready_retriever = Some length_encoder
        \<and> vector_store ready_retriever = Some two_entries
        \<and> encode_query (cfg_max_query_length (RAGConfig ''docs'' ''length'')) length_encoder
             (if length (clean_query ''near'') > max_query_length ready_retriever
              then take (max_query_length ready_retriever) (clean_query ''near'')
              else clean_query ''near'')
            = Inr [4]"
    by (simp add: ready_retriever_def RAGConfig_def clean_query_near encode_query_near py_strip_def is_space_def)
  then have "retrieve (RAGConfig ''docs'' ''length'') memory_chroma ready_retriever ''near''
               (Some 0) (Some 0) None =
             Inr (process_search_results
                    (search_similar memory_chroma two_entries [4]
                       (default_top_k ready_retriever) (similarity_threshold ready_retriever))
                    ''near'' None)"
    by (rule retrieve_zero_means_default [THEN conjunct2, THEN conjunct2, THEN mp])
  then show ?thesis
    by (simp add: ready_retriever_def search_two_entries_default process_search_results_def
          analyze_query_match_near)
qed

text \<open>
  C5. \<^verbatim>\<open>_process_search_results\<close> keeps a search result exactly when, for every item of
  the metadata filter, the metadata of the result holds the key with a value equal (by
  Python's \<^verbatim>\<open>==\<close>) to the filter's; without a filter it keeps every result. The results
  kept stay in the order of the input, and the rank of each is its position in the
  output, counted from 1.
\<close>

theorem process_search_results_filter_and_rank:
  "process_search_results docs q flt =
     map (\<lambda>(i, d). \<lparr>content = document d, result_metadata = metadata d,
                     result_similarity_score = similarity_score d,
                     result_distance = distance d, relevance_rank = i + 1,
                     query_match_info = analyze_query_match (document d) q\<rparr>)
       (enumerate 0
          (filter (\<lambda>d. case flt of
                          None \<Rightarrow> True
                        | Some fl \<Rightarrow>
                            (\<forall>(key, val) \<in> set fl. \<exists>w. map_of (metadata d) key = Some w \<and> py_eq w val))
             docs))
   \<and> (\<forall>i < length (process_search_results docs q flt).
         relevance_rank (process_search_results docs q flt ! i) = i + 1)"
proof -
  let ?mk = "\<lambda>(i, d). \<lparr>content = document d, result_metadata = metadata d,
                     result_similarity_score = similarity_score d,
                     result_distance = distance d, relevance_rank = i + 1,
                     query_match_info = analyze_query_match (document d) q\<rparr>"
  let ?keep = "\<lambda>d. case flt of
                          None \<Rightarrow> True
                        | Some fl \<Rightarrow>
                            (\<forall>(key, val) \<in> set fl. \<exists>w. map_of (metadata d) key = Some w \<and> py_eq w val)"
  have keep: "(\<lambda>d. case flt of None \<Rightarrow> True
                              | Some fl \<Rightarrow> fl = [] \<or> should_include (metadata d) fl) = ?keep"
    by (auto simp: fun_eq_iff should_include_iff split: option.splits)
  have eq: "process_search_results docs q flt = map ?mk (enumerate 0 (filter ?keep docs))"
    unfolding process_search_results_def process_loop_eq keep by simp
  have "relevance_rank (map ?mk (enumerate 0 (filter ?keep docs)) ! i) = i + 1"
    if "i < length (filter ?keep docs)" for i
    using that by (simp add: nth_enumerate_eq)
  with eq show ?thesis by simp
qed


theorem process_search_results_filter_and_rank_witness:
  "process_search_results
     [\<lparr>document = ''a'', metadata = [(''file_type'', VStr ''.txt'')], similarity_score = 1, distance = 0\<rparr>,
      \<lparr>document = ''b'', metadata = [(''file_type'', VStr ''.pdf'')], similarity_score = 1 / 2, distance = 1\<rparr>,
      \<lparr>document = ''c'', metadata = [(''file_type'', VStr ''.pdf'')], similarity_score = 1 / 4, distance = 3\<rparr>]
     ''x'' (Some [(''file_type'', VStr ''.pdf'')]) =
   [\<lparr>content = ''b'', result_metadata = [(''file_type'', VStr ''.pdf'')],
      result_similarity_score = 1 / 2, result_distance = 1, relevance_rank = 1,
      query_match_info = \<lparr>exact_word_matches = 0, total_query_words = 1,
                           match_percentage = 0, matched_words = []\<rparr>\<rparr>,
    \<lparr>content = ''c'', result_metadata = [(''file_type'', VStr ''.pdf'')],
      result_similarity_score = 1 / 4, result_distance = 3, relevance_rank = 2,
      query_match_info = \<lparr>exact_word_matches = 0, total_query_words = 1,
                           match_percentage = 0, matched_words = []\<rparr>\<rparr>]"
  by (simp add: process_search_results_filter_and_rank [THEN conjunct1]
        analyze_query_match_no_match enumerate_simps)

text \<open>
  C2, as the code has it. \<^verbatim>\<open>_flatten_metadata\<close> stores every value that is not a mapping
  under the keys of its path joined with an underscore, where empty keys at the head of
  the path are left out: a mapping stored under the empty key at the top level
  contributes no prefix and its children keep their own keys, and everywhere else parent
  and child keys are joined with \<^verbatim>\<open>_\<close>. A scalar is stored unchanged, a list as the
  \<^verbatim>\<open>", "\<close>-joined string forms of its elements, any other value as its string form. When
  no mapping is stored under the empty key at the top level this is the transform the
  specification describes. Whatever the input, every value of the result is a scalar and
  none is a mapping. Flattening \<^verbatim>\<open>{"a": {"b": 1, "c": [1, 2]}}\<close> gives
  \<^verbatim>\<open>{"a_b": 1, "a_c": "1, 2"}\<close>.
\<close>

theorem flatten_metadata_refines_spec:
  "flatten_metadata f (VDict kvs) =
     fold (\<lambda>(p, v). AList.update (py_join ''_'' (dropWhile (\<lambda>k. k = []) p)) (spec_leaf f v))
       (spec_paths kvs) []
   \<and> ((\<forall>(k, v) \<in> set kvs. is_dict v \<longrightarrow> k \<noteq> [])
      \<longrightarrow> flatten_metadata f (VDict kvs) = flatten_spec f kvs)
   \<and> (\<forall>(k, v) \<in> set (flatten_metadata f md). is_scalar v \<and> \<not> is_dict v)
   \<and> flatten_metadata f (VDict [(''a'', VDict [(''b'', VInt 1), (''c'', VList [VInt 1, VInt 2])])])
       = [(''a_b'', VInt 1), (''a_c'', VStr ''1, 2'')]"
proof (intro conjI impI)
  show "flatten_metadata f (VDict kvs) =
     fold (\<lambda>(p, v). AList.update (py_join ''_'' (dropWhile (\<lambda>k. k = []) p)) (spec_leaf f v))
       (spec_paths kvs) []"
    by (rule flatten_metadata_general)
next
  assume top: "\<forall>(k, v) \<in> set kvs. is_dict v \<longrightarrow> k \<noteq> []"
  have "flatten_recursive f (VDict kvs) [] [] = flatten_spec f kvs"
    by (simp add: flatten_items_top [OF top] flatten_spec_def)
  then show "flatten_metadata f (VDict kvs) = flatten_spec f kvs"
    by (simp add: flatten_metadata_def rescan_scalar [OF flatten_spec_scalar])
next
  show "\<forall>(k, v) \<in> set (flatten_metadata f md). is_scalar v \<and> \<not> is_dict v"
  proof -
    have "\<not> is_dict v" if "is_scalar v" for v
      using that by (cases v) simp_all
    with flatten_metadata_values_scalar [of f md] show ?thesis by blast
  qed
next
  show "flatten_metadata f (VDict [(''a'', VDict [(''b'', VInt 1), (''c'', VList [VInt 1, VInt 2])])])
       = [(''a_b'', VInt 1), (''a_c'', VStr ''1, 2'')]"
    by (simp add: flatten_metadata_def str_int_def str_nat.simps)
qed

text \<open>
  C2 as stated fails for a parent whose key is the empty string: \<^verbatim>\<open>if prefix\<close> takes the
  empty prefix for no prefix, so \<^verbatim>\<open>{"": {"b": 1}}\<close> flattens to \<^verbatim>\<open>{"b": 1}\<close> where joining
  parent and child with an underscore gives \<^verbatim>\<open>{"_b": 1}\<close>.
\<close>

theorem flatten_metadata_empty_key_counterexample:
  "flatten_metadata plain_formats (VDict [([], VDict [(''b'', VInt 1)])]) = [(''b'', VInt 1)]
   \<and> flatten_spec plain_formats [([], VDict [(''b'', VInt 1)])] = [(''_b'', VInt 1)]
   \<and> flatten_metadata plain_formats (VDict [([], VDict [(''b'', VInt 1)])])
       \<noteq> flatten_spec plain_formats [([], VDict [(''b'', VInt 1)])]"
  by (simp add: flatten_metadata_def flatten_spec_def spec_leaf_def)

theorem flatten_metadata_refines_spec_witness:
  "flatten_metadata plain_formats
     (VDict [([], VDict [(''b'', VInt 1)]), (''a'', VDict [(''c'', VList [VInt 1, VInt 2])])])
   = [(''b'', VInt 1), (''a_c'', VStr ''1, 2'')]
   \<and> flatten_metadata plain_formats
     (VDict [(''a'', VDict [(''b'', VInt 1), (''c'', VList [VInt 1, VInt 2])]),
             (''t'', VOther ''(1, 2)'' ''(1, 2)''), (''n'', VNone)])
   = [(''a_b'', VInt 1), (''a_c'', VStr ''1, 2''), (''t'', VStr ''(1, 2)''), (''n'', VNone)]"
proof
  let ?mixed = "[([], VDict [(''b'', VInt 1)]), (''a'', VDict [(''c'', VList [VInt 1, VInt 2])])]"
  have "flatten_metadata plain_formats (VDict ?mixed) =
     fold (\<lambda>(p, v). AList.update (py_join ''_'' (dropWhile (\<lambda>k. k = []) p))
                      (spec_leaf plain_formats v))
       (spec_paths ?mixed) []"
    by (rule flatten_metadata_refines_spec [THEN conjunct1])
  then show "flatten_metadata plain_formats (VDict ?mixed)
      = [(''b'', VInt 1), (''a_c'', VStr ''1, 2'')]"
    by (simp add: spec_leaf_def str_int_def str_nat.simps)
next
  let ?kvs = "[(''a'', VDict [(''b'', VInt 1), (''c'', VList [VInt 1, VInt 2])]),
             (''t'', VOther ''(1, 2)'' ''(1, 2)''), (''n'', VNone)]"
  have "\<forall>(k, v) \<in> set ?kvs. is_dict v \<longrightarrow> k \<noteq> []"
    by simp
  then have "flatten_metadata plain_formats (VDict ?kvs) = flatten_spec plain_formats ?kvs"
    by (rule flatten_metadata_refines_spec [THEN conjunct2, THEN conjunct1, THEN mp])
  then show "flatten_metadata plain_formats (VDict ?kvs)
      = [(''a_b'', VInt 1), (''a_c'', VStr ''1, 2''), (''t'', VStr ''(1, 2)''), (''n'', VNone)]"
    by (simp add: flatten_spec_def spec_leaf_def str_int_def str_nat.simps)
qed


text \<open>
  C3, as the code has it. Every chunk that \<^verbatim>\<open>process_document\<close> returns has a text of at
  most \<open>chunk_size + chunk_overlap + 1\<close> characters, whatever the document, the tokenizer
  and the mode, as long as the overlap is positive (the constructor never sets it to
  zero): a segment has at most \<open>chunk_size\<close> characters, a sentence longer than that being
  split by character windows; the overlap prefix has at most \<open>chunk_overlap\<close>; and one
  space joins the two. With a positive chunk size and an overlap of at most 80 percent of
  it the call returns.
\<close>

theorem chunk_length_bound:
  "(process_document p tok clock d = Some out \<and> 0 < chunk_overlap p
      \<longrightarrow> (\<forall>c \<in> set out. \<exists>t. chunk_content c = Some t
              \<and> length t \<le> chunk_size p + chunk_overlap p + 1))
   \<and> (0 < chunk_size p \<and> 5 * chunk_overlap p \<le> 4 * chunk_size p
      \<longrightarrow> (\<exists>out. process_document p tok clock d = Some out))"
proof (intro conjI impI ballI)
  fix c
  assume a: "process_document p tok clock d = Some out \<and> 0 < chunk_overlap p"
    and c: "c \<in> set out"
  from process_document_cases [of p tok clock d out] a c obtain chunks src md where
    seg: "segment_text p tok (chunk_clean_text (the (doc_content d))) = Some (Inr chunks)"
    and out: "out = take (max 1 (max_chunks_per_doc p))
             (map (\<lambda>(j, c). make_chunk src md clock j c)
                (filter (\<lambda>(j, c). 50 \<le> length (py_strip c)) (enumerate 0 chunks)))"
    by auto
  from c out obtain j s where js: "(j, s) \<in> set (enumerate 0 chunks)"
    and cj: "c = make_chunk src md clock j s"
    by (auto dest!: in_set_takeD)
  from js have "s \<in> set chunks"
    by (auto simp: in_set_enumerate_eq)
  with segment_text_lengths [OF seg] a
  have "length s \<le> chunk_size p + chunk_overlap p + 1" by auto
  with py_strip_length [of s] have "length (py_strip s) \<le> chunk_size p + chunk_overlap p + 1"
    by linarith
  with cj show "\<exists>t. chunk_content c = Some t \<and> length t \<le> chunk_size p + chunk_overlap p + 1"
    by (simp add: make_chunk_def)
next
  assume "0 < chunk_size p \<and> 5 * chunk_overlap p \<le> 4 * chunk_size p"
  then show "\<exists>out. process_document p tok clock d = Some out"
    using process_document_total by blast
qed

text \<open>
  C3 as stated fails by the joining space: with \<open>chunk_size = 60\<close> and \<open>chunk_overlap = 10\<close>
  the second chunk of the three-sentence document holds two whole sentences after the
  overlap prefix and is 71 characters long, one more than \<open>chunk_size + chunk_overlap\<close>.
\<close>

theorem chunk_length_bound_counterexample:
  "process_document small_processor no_nltk fixed_clock three_sentences =
     Some [make_chunk ''a.txt'' (VDict []) fixed_clock 1
             ''retrievals Chunks overlap by a few chars Queries are matched by vectors'']
   \<and> chunk_content (make_chunk ''a.txt'' (VDict []) fixed_clock 1
             ''retrievals Chunks overlap by a few chars Queries are matched by vectors'')
       = Some ''retrievals Chunks overlap by a few chars Queries are matched by vectors''
   \<and> length ''retrievals Chunks overlap by a few chars Queries are matched by vectors'' = 71
   \<and> chunk_size small_processor + chunk_overlap small_processor = 70"
proof (intro conjI)
  show "process_document small_processor no_nltk fixed_clock three_sentences =
     Some [make_chunk ''a.txt'' (VDict []) fixed_clock 1
             ''retrievals Chunks overlap by a few chars Queries are matched by vectors'']"
    by (rule process_three)
  show "chunk_content (make_chunk ''a.txt'' (VDict []) fixed_clock 1
             ''retrievals Chunks overlap by a few chars Queries are matched by vectors'')
       = Some ''retrievals Chunks overlap by a few chars Queries are matched by vectors''"
    by (simp only: chunk_three chunk.simps)
  show "length ''retrievals Chunks overlap by a few chars Queries are matched by vectors'' = 71"
    by simp
  show "chunk_size small_processor + chunk_overlap small_processor = 70"
    by (simp add: small_processor_fields)
qed

theorem chunk_length_bound_witness:
  "0 < chunk_overlap small_processor
   \<and> 0 < chunk_size small_processor
   \<and> 5 * chunk_overlap small_processor \<le> 4 * chunk_size small_processor
   \<and> process_document small_processor no_nltk fixed_clock three_sentences =
       Some [make_chunk ''a.txt'' (VDict []) fixed_clock 1
               ''retrievals Chunks overlap by a few chars Queries are matched by vectors'']
   \<and> (\<exists>t. chunk_content (make_chunk ''a.txt'' (VDict []) fixed_clock 1
               ''retrievals Chunks overlap by a few chars Queries are matched by vectors'') = Some t
          \<and> length t \<le> chunk_size small_processor + chunk_overlap small_processor + 1)"
proof -
  let ?c = "make_chunk ''a.txt'' (VDict []) fixed_clock 1
               ''retrievals Chunks overlap by a few chars Queries are matched by vectors''"
  have pd: "process_document small_processor no_nltk fixed_clock three_sentences = Some [?c]"
    by (rule process_three)
  have ov: "0 < chunk_overlap small_processor"
    by (simp add: small_processor_fields)
  from pd ov have "process_document small_processor no_nltk fixed_clock three_sentences = Some [?c]
      \<and> 0 < chunk_overlap small_processor" by simp
  then have "\<forall>c \<in> set [?c]. \<exists>t. chunk_content c = Some t
              \<and> length t \<le> chunk_size small_processor + chunk_overlap small_processor + 1"
    by (rule chunk_length_bound [THEN conjunct1, THEN mp])
  then have "\<exists>t. chunk_content ?c = Some t
              \<and> length t \<le> chunk_size small_processor + chunk_overlap small_processor + 1"
    by simp
  with pd ov show ?thesis
    by (simp add: small_processor_fields)
qed

text \<open>
  C4, as the code has it. The chunks that \<^verbatim>\<open>process_document\<close> returns are made from the
  segments of at least 50 characters (after trimming), in the order of the document, up
  to the cap; the \<^verbatim>\<open>chunk_index\<close> of each is the position of its segment among all the
  segments, the skipped ones included (the index of \<^verbatim>\<open>enumerate(chunks)\<close>), so the
  indices increase strictly along the output but need not be consecutive.
\<close>

theorem chunk_index_is_segment_position:
  "(doc_content d = Some content_text \<and> content_text \<noteq> [] \<and> py_strip content_text \<noteq> []
      \<and> segment_text p tok (chunk_clean_text content_text) = Some (Inr chunks)
    \<longrightarrow>
      process_document p tok clock d =
        Some (map (\<lambda>i. make_chunk (case doc_source d of None \<Rightarrow> ''unknown'' | Some s \<Rightarrow> s)
                           (case doc_metadata d of None \<Rightarrow> VDict [] | Some m \<Rightarrow> m)
                           clock i (chunks ! i))
                (take (max 1 (max_chunks_per_doc p))
                   (filter (\<lambda>i. 50 \<le> length (py_strip (chunks ! i))) [0 ..< length chunks])))
      \<and> sorted_wrt (<)
            (take (max 1 (max_chunks_per_doc p))
               (filter (\<lambda>i. 50 \<le> length (py_strip (chunks ! i))) [0 ..< length chunks])))
   \<and> map_of (the (chunk_metadata (make_chunk src md clock i c))) ''chunk_index'' = Some (VInt (int i))
   \<and> chunk_content (make_chunk src md clock i c) = Some (py_strip c)"
proof (intro conjI impI)
  assume a: "doc_content d = Some content_text \<and> content_text \<noteq> [] \<and> py_strip content_text \<noteq> []
      \<and> segment_text p tok (chunk_clean_text content_text) = Some (Inr chunks)"
  then show "process_document p tok clock d =
        Some (map (\<lambda>i. make_chunk (case doc_source d of None \<Rightarrow> ''unknown'' | Some s \<Rightarrow> s)
                           (case doc_metadata d of None \<Rightarrow> VDict [] | Some m \<Rightarrow> m)
                           clock i (chunks ! i))
                (take (max 1 (max_chunks_per_doc p))
                   (filter (\<lambda>i. 50 \<le> length (py_strip (chunks ! i))) [0 ..< length chunks])))"
    by (simp add: process_document_eq [of d content_text p tok chunks clock]
          filter_enumerate_indices [of "\<lambda>c. 50 \<le> length (py_strip c)" chunks]
          take_map comp_def)
next
  show "sorted_wrt (<)
            (take (max 1 (max_chunks_per_doc p))
               (filter (\<lambda>i. 50 \<le> length (py_strip (chunks ! i))) [0 ..< length chunks]))"
    by (intro sorted_wrt_take sorted_wrt_filter) simp
next
  show "map_of (the (chunk_metadata (make_chunk src md clock i c))) ''chunk_index'' = Some (VInt (int i))"
    by (simp add: make_chunk_def)
next
  show "chunk_content (make_chunk src md clock i c) = Some (py_strip c)"
    by (simp add: make_chunk_def)
qed

text \<open>
  C4 as stated fails when a segment is skipped: the first segment of the three-sentence
  document has 40 characters and is skipped, and the one chunk returned, at position 0 of
  the output, has \<^verbatim>\<open>chunk_index\<close> 1.
\<close>

theorem chunk_index_counterexample:
  "process_document small_processor no_nltk fixed_clock three_sentences =
     Some [make_chunk ''a.txt'' (VDict []) fixed_clock 1
             ''retrievals Chunks overlap by a few chars Queries are matched by vectors'']
   \<and> map_of (the (chunk_metadata (make_chunk ''a.txt'' (VDict []) fixed_clock 1
             ''retrievals Chunks overlap by a few chars Queries are matched by vectors'')))
         ''chunk_index'' = Some (VInt 1)
   \<and> VInt 1 \<noteq> VInt 0"
proof (intro conjI)
  show "process_document small_processor no_nltk fixed_clock three_sentences =
     Some [make_chunk ''a.txt'' (VDict []) fixed_clock 1
             ''retrievals Chunks overlap by a few chars Queries are matched by vectors'']"
    by (rule process_three)
  show "map_of (the (chunk_metadata (make_chunk ''a.txt'' (VDict []) fixed_clock 1
             ''retrievals Chunks overlap by a few chars Queries are matched by vectors'')))
         ''chunk_index'' = Some (VInt 1)"
    by (simp add: make_chunk_def)
  show "VInt 1 \<noteq> VInt 0"
    by simp
qed

theorem chunk_index_is_segment_position_witness:
  "process_document small_processor no_nltk fixed_clock three_sentences =
     Some [make_chunk ''a.txt'' (VDict []) fixed_clock 1
             ''retrievals Chunks overlap by a few chars Queries are matched by vectors'']"
proof -
  let ?chunks = "[''Vector stores keep chunks for retrievals'',
                ''retrievals Chunks overlap by a few chars Queries are matched by vectors'']"
  let ?content = "''Vector stores keep chunks for retrievals. Chunks overlap by a few chars. Queries are matched by vectors.''"
  have "doc_content three_sentences = Some ?content \<and> ?content \<noteq> [] \<and> py_strip ?content \<noteq> []
      \<and> segment_text small_processor no_nltk (chunk_clean_text ?content) = Some (Inr ?chunks)"
    by (simp add: three_sentences_def clean_three segment_three py_strip_def is_space_def)
  then have "process_document small_processor no_nltk fixed_clock three_sentences =
        Some (map (\<lambda>i. make_chunk (case doc_source three_sentences of None \<Rightarrow> ''unknown'' | Some s \<Rightarrow> s)
                           (case doc_metadata three_sentences of None \<Rightarrow> VDict [] | Some m \<Rightarrow> m)
                           fixed_clock i (?chunks ! i))
                (take (max 1 (max_chunks_per_doc small_processor))
                   (filter (\<lambda>i. 50 \<le> length (py_strip (?chunks ! i))) [0 ..< length ?chunks])))"
    by (rule chunk_index_is_segment_position [THEN conjunct1, THEN mp, THEN conjunct1])
  then show ?thesis
    by (simp add: three_sentences_def small_processor_fields py_strip_def is_space_def upt_rec)
qed

text \<open>
  C8, as the code has it. With a cap of at least 1 (the configuration sets 100),
  \<^verbatim>\<open>process_document\<close> never returns more than \<^verbatim>\<open>max_chunks_per_doc\<close> chunks. The cap
  counts the chunks returned, not the segments: the number of chunks returned is the
  smaller of the cap and the number of segments of at least 50 characters (after
  trimming), so it is exactly the cap when more segments than that pass the length test.
\<close>

theorem max_chunks_cap:
  "(process_document p tok clock d = Some out \<and> 1 \<le> max_chunks_per_doc p
      \<longrightarrow> length out \<le> max_chunks_per_doc p)
   \<and> (doc_content d = Some content_text \<and> content_text \<noteq> [] \<and> py_strip content_text \<noteq> []
        \<and> segment_text p tok (chunk_clean_text content_text) = Some (Inr chunks)
        \<and> 1 \<le> max_chunks_per_doc p
      \<longrightarrow> (\<exists>out. process_document p tok clock d = Some out
             \<and> length out = min (max_chunks_per_doc p)
                             (length (filter (\<lambda>c. 50 \<le> length (py_strip c)) chunks))
             \<and> (max_chunks_per_doc p < length (filter (\<lambda>c. 50 \<le> length (py_strip c)) chunks)
                  \<longrightarrow> length out = max_chunks_per_doc p)))"
proof (intro conjI impI)
  assume a: "process_document p tok clock d = Some out \<and> 1 \<le> max_chunks_per_doc p"
  then have m: "max 1 (max_chunks_per_doc p) = max_chunks_per_doc p" by simp
  from process_document_cases [of p tok clock d out] a show "length out \<le> max_chunks_per_doc p"
    by (auto simp: m)
next
  assume a: "doc_content d = Some content_text \<and> content_text \<noteq> [] \<and> py_strip content_text \<noteq> []
        \<and> segment_text p tok (chunk_clean_text content_text) = Some (Inr chunks)
        \<and> 1 \<le> max_chunks_per_doc p"
  then have m: "max 1 (max_chunks_per_doc p) = max_chunks_per_doc p" by simp
  from a show "\<exists>out. process_document p tok clock d = Some out
             \<and> length out = min (max_chunks_per_doc p)
                             (length (filter (\<lambda>c. 50 \<le> length (py_strip c)) chunks))
             \<and> (max_chunks_per_doc p < length (filter (\<lambda>c. 50 \<le> length (py_strip c)) chunks)
                  \<longrightarrow> length out = max_chunks_per_doc p)"
    by (simp add: process_document_eq [of d content_text p tok chunks clock] m
          length_filter_enumerate min.commute)
qed

text \<open>
  C8 as stated fails when the segments are short: in character mode with
  \<open>chunk_size = 40\<close> a document of 5000 letters is cut into more than 100 segments, none
  of which reaches 50 characters, and \<^verbatim>\<open>process_document\<close> returns no chunk at all.
\<close>

theorem max_chunks_cap_counterexample:
  "(case segment_text char_processor no_nltk (chunk_clean_text (replicate 5000 (CHR ''a''))) of
      Some (Inr chunks) \<Rightarrow> max_chunks_per_doc char_processor < length chunks
    | _ \<Rightarrow> False)
   \<and> doc_content long_word = Some (replicate 5000 (CHR ''a''))
   \<and> process_document char_processor no_nltk fixed_clock long_word = Some []
   \<and> max_chunks_per_doc char_processor = 100"
proof (intro conjI)
  from long_word_segments obtain chunks where
    "segment_text char_processor no_nltk (replicate 5000 (CHR ''a'')) = Some (Inr chunks)"
    "100 < length chunks" by blast
  then show "case segment_text char_processor no_nltk
                  (chunk_clean_text (replicate 5000 (CHR ''a''))) of
      Some (Inr chunks) \<Rightarrow> max_chunks_per_doc char_processor < length chunks
    | _ \<Rightarrow> False"
    by (simp add: long_word_clean char_processor_fields)
  show "doc_content long_word = Some (replicate 5000 (CHR ''a''))"
    by (simp add: long_word_def)
  show "process_document char_processor no_nltk fixed_clock long_word = Some []"
    by (rule long_word_emits_nothing)
  show "max_chunks_per_doc char_processor = 100"
    by (simp add: char_processor_fields)
qed

theorem max_chunks_cap_witness:
  "max_chunks_per_doc capped_processor = 1
   \<and> segment_text capped_processor no_nltk
        (chunk_clean_text ''The retriever ranks each stored chunk by its similarity. Chunks that score below the threshold are never returned.'')
       = Some (Inr [''The retriever ranks each stored chunk by its similarity'',
                    ''similarity Chunks that score below the threshold are never returned''])
   \<and> (\<exists>out. process_document capped_processor no_nltk fixed_clock two_sentences = Some out
          \<and> length out = 1)"
proof -
  let ?content = "''The retriever ranks each stored chunk by its similarity. Chunks that score below the threshold are never returned.''"
  let ?chunks = "[''The retriever ranks each stored chunk by its similarity'',
                    ''similarity Chunks that score below the threshold are never returned'']"
  have seg: "segment_text capped_processor no_nltk (chunk_clean_text ?content) = Some (Inr ?chunks)"
    by (simp only: clean_two segment_two)
  have "doc_content two_sentences = Some ?content \<and> ?content \<noteq> [] \<and> py_strip ?content \<noteq> []
        \<and> segment_text capped_processor no_nltk (chunk_clean_text ?content) = Some (Inr ?chunks)
        \<and> 1 \<le> max_chunks_per_doc capped_processor"
    using seg by (simp add: two_sentences_def py_strip_def is_space_def capped_processor_fields)
  then have "\<exists>out. process_document capped_processor no_nltk fixed_clock two_sentences = Some out
             \<and> length out = min (max_chunks_per_doc capped_processor)
                             (length (filter (\<lambda>c. 50 \<le> length (py_strip c)) ?chunks))
             \<and> (max_chunks_per_doc capped_processor
                    < length (filter (\<lambda>c. 50 \<le> length (py_strip c)) ?chunks)
                  \<longrightarrow> length out = max_chunks_per_doc capped_processor)"
    by (rule max_chunks_cap [THEN conjunct2, THEN mp])
  then have "\<exists>out. process_document capped_processor no_nltk fixed_clock two_sentences = Some out
          \<and> length out = 1"
    by (simp only: survivors_two capped_processor_fields) auto
  with seg show ?thesis
    by (simp add: capped_processor_fields)
qed

end
